theory Spec2Isabelle
  imports Complex_Main
begin

section \<open>The CDQ3D evaluation of benchbot\_eval (cdq3d.py)\<close>

text \<open>
  Python floats and numpy's float32/float64 entries are modelled as real numbers: rounding
  is not modelled, and numpy's nan (which scipy's \<open>gmean\<close> yields for a negative
  component) has no counterpart, so statements about values are made for non-negative
  probabilities and overlaps. Counts are natural numbers: they are only ever built from
  \<open>len\<close> and counters that start at zero. Every exception the source can raise on
  well-typed records is a value of \<open>error\<close>.
\<close>

subsection \<open>Errors and the numpy primitives\<close>

datatype error = IndexError | KeyError | ValueError | TypeError | ZeroDivisionError

definition bind :: "error + 'a \<Rightarrow> ('a \<Rightarrow> error + 'b) \<Rightarrow> error + 'b" where
  "bind m f = (case m of Inl e \<Rightarrow> Inl e | Inr v \<Rightarrow> f v)"

text \<open>A list comprehension whose body can raise: the first exception ends it.\<close>

fun mapM :: "('a \<Rightarrow> error + 'b) \<Rightarrow> 'a list \<Rightarrow> error + 'b list" where
  "mapM f [] = Inr []"
| "mapM f (x # xs) = bind (f x) (\<lambda>y. bind (mapM f xs) (\<lambda>ys. Inr (y # ys)))"

text \<open>Indexing an axis of length \<open>length xs\<close> with a Python integer: negative indices
  count from the end, anything else out of range raises IndexError.\<close>

definition py_index :: "'a list \<Rightarrow> int \<Rightarrow> error + 'a" where
  "py_index xs i =
     (if 0 \<le> i \<and> i < int (length xs) then Inr (xs ! nat i)
      else if i < 0 \<and> - int (length xs) \<le> i then Inr (xs ! nat (int (length xs) + i))
      else Inl IndexError)"

text \<open>\<open>np.max\<close> of a one-dimensional sequence; the empty sequence raises ValueError.\<close>

fun np_max :: "'a::linorder list \<Rightarrow> error + 'a" where
  "np_max [] = Inl ValueError"
| "np_max (x # xs) = Inr (fold max xs x)"

text \<open>\<open>np.stack(rows, axis=0)\<close> of one-dimensional arrays: needs at least one array, and
  all of the same length.\<close>

definition np_stack :: "real list list \<Rightarrow> error + real list list" where
  "np_stack rows =
     (if rows = [] then Inl ValueError
      else if list_all (\<lambda>r. length r = length (hd rows)) rows then Inr rows
      else Inl ValueError)"

text \<open>
  \<open>scipy.stats.gmean\<close> along the last axis, as scipy computes it:
  \<open>exp(mean(log(a)))\<close>. With \<open>np.errstate(divide='ignore')\<close> the logarithm of 0 is
  \<open>-inf\<close>, the mean is then \<open>-inf\<close> and its exponential is 0.
\<close>

definition gmean :: "real list \<Rightarrow> real" where
  "gmean xs = (if 0 \<in> set xs then 0 else exp (sum_list (map ln xs) / real (length xs)))"

text \<open>Division of two floats; a zero divisor has no quotient.\<close>

definition truediv :: "real \<Rightarrow> real \<Rightarrow> error + real" where
  "truediv a b = (if b = 0 then Inl ZeroDivisionError else Inr (a / b))"

subsection \<open>Records of a map\<close>

record box =
  centroid :: "real list"
  extent :: "real list"

text \<open>A ground-truth dictionary: the key \<open>state\<close> is only there in scene-change mode.\<close>

record gt_instance = box +
  class_id :: int
  state :: "string option"

text \<open>A detection dictionary: the key \<open>state_probs\<close> is only there in scene-change
  mode.\<close>

record det_instance = box +
  prob_dist :: "real list"
  state_probs :: "real list option"

text \<open>The dictionary \<open>_calc_qual_map\<close> returns.\<close>

record results =
  overall :: real
  spatial :: real
  label :: real
  fp_cost :: real
  TP :: nat
  FP :: nat
  FN :: nat
  state_change :: real

text \<open>The fields of a \<open>CDQ3D\<close> object.\<close>

record cdq3d =
  tot_overall_quality :: real
  tot_spatial_quality :: real
  tot_label_quality :: real
  tot_fp_cost :: real
  tot_TP :: nat
  tot_FP :: nat
  tot_FN :: nat
  tot_state_quality :: real
  scd_mode :: bool

subsection \<open>The running score accumulator\<close>

definition init :: "bool \<Rightarrow> cdq3d" where
  "init scd = \<lparr>tot_overall_quality = 0, tot_spatial_quality = 0, tot_label_quality = 0,
     tot_fp_cost = 0, tot_TP = 0, tot_FP = 0, tot_FN = 0, tot_state_quality = 0,
     scd_mode = scd\<rparr>"

definition reset :: "cdq3d \<Rightarrow> cdq3d" where
  "reset self = self\<lparr>tot_overall_quality := 0, tot_spatial_quality := 0,
     tot_label_quality := 0, tot_fp_cost := 0, tot_TP := 0, tot_FP := 0, tot_FN := 0,
     tot_state_quality := 0\<rparr>"

definition get_current_score :: "cdq3d \<Rightarrow> error + real" where
  "get_current_score self =
     (let denominator = real (tot_TP self) + tot_fp_cost self + real (tot_FN self)
      in if denominator = 0 then Inr 0
         else truediv (tot_overall_quality self) denominator)"

definition get_avg_spatial_score :: "cdq3d \<Rightarrow> error + real" where
  "get_avg_spatial_score self =
     (if real (tot_TP self) > 0 then truediv (tot_spatial_quality self) (real (tot_TP self))
      else Inr 0)"

definition get_avg_label_score :: "cdq3d \<Rightarrow> error + real" where
  "get_avg_label_score self =
     (if real (tot_TP self) > 0 then truediv (tot_label_quality self) (real (tot_TP self))
      else Inr 0)"

definition get_avg_state_score :: "cdq3d \<Rightarrow> error + real" where
  "get_avg_state_score self =
     (if real (tot_TP self) > 0 then truediv (tot_state_quality self) (real (tot_TP self))
      else Inr 0)"

definition get_avg_overall_quality_score :: "cdq3d \<Rightarrow> error + real" where
  "get_avg_overall_quality_score self =
     (if real (tot_TP self) > 0 then truediv (tot_overall_quality self) (real (tot_TP self))
      else Inr 0)"

definition get_avg_fp_score :: "cdq3d \<Rightarrow> error + real" where
  "get_avg_fp_score self =
     (if real (tot_FP self) > 0
      then truediv (real (tot_FP self) - tot_fp_cost self) (real (tot_FP self))
      else Inr 1)"

definition get_assignment_counts :: "cdq3d \<Rightarrow> nat \<times> nat \<times> nat" where
  "get_assignment_counts self = (tot_TP self, tot_FP self, tot_FN self)"

subsection \<open>Vectorising a map\<close>

definition STATE_IDS :: "string \<rightharpoonup> int" where
  "STATE_IDS = [''added'' \<mapsto> 0, ''removed'' \<mapsto> 1, ''constant'' \<mapsto> 2]"

definition box_of :: "'a box_scheme \<Rightarrow> box" where
  "box_of inst = \<lparr>centroid = centroid inst, extent = extent inst\<rparr>"

text \<open>\<open>_STATE_IDS[gt_instance["state"]]\<close>: either lookup can raise KeyError.\<close>

definition gt_state_id :: "gt_instance \<Rightarrow> error + int" where
  "gt_state_id gt_instance =
     (case state gt_instance of
        None \<Rightarrow> Inl KeyError
      | Some s \<Rightarrow> (case STATE_IDS s of None \<Rightarrow> Inl KeyError | Some i \<Rightarrow> Inr i))"

definition vectorize_map_gts ::
  "gt_instance list \<Rightarrow> bool \<Rightarrow> error + (box list \<times> int list \<times> int list)" where
  "vectorize_map_gts gt_instances scd =
     (let gt_labels = map class_id gt_instances;
          gt_boxes = map box_of gt_instances
      in bind (if scd then mapM gt_state_id gt_instances
               else Inr (map (\<lambda>gt_instance. - 1) gt_instances))
           (\<lambda>gt_state_ids. Inr (gt_boxes, gt_labels, gt_state_ids)))"

definition det_state_probs :: "det_instance \<Rightarrow> error + real list" where
  "det_state_probs det_instance =
     (case state_probs det_instance of None \<Rightarrow> Inl KeyError | Some ps \<Rightarrow> Inr ps)"

definition vectorize_map_dets ::
  "det_instance list \<Rightarrow> bool \<Rightarrow> error + (box list \<times> real list list \<times> real list list)" where
  "vectorize_map_dets det_instances scd =
     bind (np_stack (map prob_dist det_instances)) (\<lambda>det_label_prob_mat.
       let det_boxes = map box_of det_instances
       in bind (if scd then bind (mapM det_state_probs det_instances) np_stack
                else Inr (map (\<lambda>det_instance. [- 1, - 1, - 1]) det_instances))
            (\<lambda>det_state_prob_mat. Inr (det_boxes, det_label_prob_mat, det_state_prob_mat)))"

subsection \<open>Quality matrices\<close>

text \<open>The spatial-overlap collaborator \<open>_IOU_TOOL.dict_iou(a, b)[1]\<close> (module
  \<open>iou_tools\<close>) is the parameter \<open>iou\<close>.\<close>

definition calc_spatial_qual ::
  "(box \<Rightarrow> box \<Rightarrow> real) \<Rightarrow> box list \<Rightarrow> box list \<Rightarrow> real list list" where
  "calc_spatial_qual iou gt_boxes det_boxes =
     map (\<lambda>gt_box_dict. map (\<lambda>det_box_dict. iou gt_box_dict det_box_dict) det_boxes) gt_boxes"

text \<open>\<open>det_prob_mat[:, gt_label_vec].T\<close>: row \<open>i\<close> holds, for every detection, its
  probability at the class of ground truth \<open>i\<close>.\<close>

definition calc_label_qual :: "int list \<Rightarrow> real list list \<Rightarrow> error + real list list" where
  "calc_label_qual gt_label_vec det_prob_mat =
     mapM (\<lambda>l. mapM (\<lambda>det_probs. py_index det_probs l) det_prob_mat) gt_label_vec"

definition calc_state_change_qual ::
  "int list \<Rightarrow> real list list \<Rightarrow> error + real list list option" where
  "calc_state_change_qual gt_state_vec det_state_prob_mat =
     bind (np_max gt_state_vec) (\<lambda>m.
       if m = - 1 then Inr None
       else bind (mapM (\<lambda>s. mapM (\<lambda>det_probs. py_index det_probs s) det_state_prob_mat)
                    gt_state_vec)
              (\<lambda>state_qual_mat. Inr (Some state_qual_mat)))"

text \<open>\<open>np.dstack\<close> needs matrices of one shape; \<open>gmean\<close> then runs over the stacked
  components of every cell.\<close>

definition calc_overall_qual ::
  "real list list \<Rightarrow> real list list \<Rightarrow> real list list option \<Rightarrow> error + real list list" where
  "calc_overall_qual label_qual spatial_qual state_qual_mat =
     (case state_qual_mat of
        None \<Rightarrow>
          if map length label_qual = map length spatial_qual
          then Inr (map (\<lambda>i. map (\<lambda>j. gmean [label_qual ! i ! j, spatial_qual ! i ! j])
                             [0..<length (label_qual ! i)])
                     [0..<length label_qual])
          else Inl ValueError
      | Some state_qual \<Rightarrow>
          if map length label_qual = map length spatial_qual
             \<and> map length label_qual = map length state_qual
          then Inr (map (\<lambda>i. map (\<lambda>j. gmean [label_qual ! i ! j, spatial_qual ! i ! j,
                                               state_qual ! i ! j])
                             [0..<length (label_qual ! i)])
                     [0..<length label_qual])
          else Inl ValueError)"

subsection \<open>Cost tables\<close>

record cost_tables =
  ct_overall :: "real list list"
  ct_spatial :: "real list list"
  ct_label :: "real list list"
  ct_state :: "real list list"

definition np_ones :: "nat \<Rightarrow> real list list" where
  "np_ones n = replicate n (replicate n 1)"

text \<open>\<open>table[:g, :d] -= qual\<close> for a \<open>g\<close> by \<open>d\<close> matrix \<open>qual\<close> (every
  quality matrix built below has that shape).\<close>

definition sub_block :: "nat \<Rightarrow> nat \<Rightarrow> real list list \<Rightarrow> real list list \<Rightarrow> real list list" where
  "sub_block g d table qual =
     map (\<lambda>r. map (\<lambda>c. if r < g \<and> c < d then table ! r ! c - qual ! r ! c
                         else table ! r ! c)
                [0..<length (table ! r)])
       [0..<length table]"

definition gen_cost_tables ::
  "(box \<Rightarrow> box \<Rightarrow> real) \<Rightarrow> gt_instance list \<Rightarrow> det_instance list \<Rightarrow> bool
     \<Rightarrow> error + cost_tables" where
  "gen_cost_tables iou gt_instances det_instances scd =
     (let n_pairs = max (length gt_instances) (length det_instances);
          g = length gt_instances; d = length det_instances
      in bind (vectorize_map_gts gt_instances scd) (\<lambda>(gt_boxes, gt_labels, gt_state_ids).
         bind (vectorize_map_dets det_instances scd)
           (\<lambda>(det_boxes, det_label_prob_mat, det_state_prob_mat).
         bind (calc_label_qual gt_labels det_label_prob_mat) (\<lambda>label_qual_mat.
         let spatial_qual = calc_spatial_qual iou gt_boxes det_boxes
         in bind (calc_state_change_qual gt_state_ids det_state_prob_mat) (\<lambda>state_change_qual.
            bind (calc_overall_qual label_qual_mat spatial_qual state_change_qual)
              (\<lambda>overall_qual.
            bind (if scd
                  then (case state_change_qual of
                          None \<Rightarrow> Inl TypeError
                        | Some state_qual \<Rightarrow> Inr (sub_block g d (np_ones n_pairs) state_qual))
                  else Inr (np_ones n_pairs))
              (\<lambda>state_cost_table.
            Inr \<lparr>ct_overall = sub_block g d (np_ones n_pairs) overall_qual,
                 ct_spatial = sub_block g d (np_ones n_pairs) spatial_qual,
                 ct_label = sub_block g d (np_ones n_pairs) label_qual_mat,
                 ct_state = state_cost_table\<rparr>)))))))"

subsection \<open>Evaluating one map\<close>

text \<open>The body of the loop over the matched pairs: the state is (TP, FP, FN, the indices
  of the false positive detections).\<close>

definition classify_match ::
  "real list list \<Rightarrow> nat \<Rightarrow> nat \<Rightarrow> nat \<times> nat \<Rightarrow> nat \<times> nat \<times> nat \<times> nat list
     \<Rightarrow> nat \<times> nat \<times> nat \<times> nat list" where
  "classify_match overall_quality_table g d match acc =
     (case match of (row_id, col_id) \<Rightarrow>
      case acc of (true_positives, false_positives, false_negatives, false_positive_idxs) \<Rightarrow>
        if overall_quality_table ! row_id ! col_id > 0
        then (true_positives + 1, false_positives, false_negatives, false_positive_idxs)
        else (true_positives,
              if col_id < d then false_positives + 1 else false_positives,
              if row_id < g then false_negatives + 1 else false_negatives,
              if col_id < d then false_positive_idxs @ [col_id] else false_positive_idxs))"

text \<open>\<open>table[mask_table == 0] = 0.0\<close>.\<close>

definition zero_where :: "real list list \<Rightarrow> real list list \<Rightarrow> real list list" where
  "zero_where mask_table table =
     map (\<lambda>r. map (\<lambda>c. if mask_table ! r ! c = 0 then 0 else table ! r ! c)
                [0..<length (table ! r)])
       [0..<length table]"

text \<open>\<open>np.sum(table[row_idxs, col_idxs])\<close>.\<close>

definition sum_at :: "real list list \<Rightarrow> (nat \<times> nat) list \<Rightarrow> real" where
  "sum_at table matches = sum_list (map (\<lambda>(row_id, col_id). table ! row_id ! col_id) matches)"

definition one_minus :: "real list list \<Rightarrow> real list list" where
  "one_minus table = map (map (\<lambda>x. 1 - x)) table"

text \<open>The cost of one false positive detection.\<close>

definition fp_cost_of :: "bool \<Rightarrow> det_instance \<Rightarrow> error + real" where
  "fp_cost_of scd det_instance =
     (if scd
      then bind (np_max (butlast (prob_dist det_instance))) (\<lambda>max_label.
           bind (det_state_probs det_instance) (\<lambda>ps.
           bind (np_max (butlast ps)) (\<lambda>max_state. Inr (gmean [max_label, max_state]))))
      else np_max (butlast (prob_dist det_instance)))"

text \<open>
  The assignment solver \<open>scipy.optimize.linear_sum_assignment\<close> is the parameter
  \<open>lsa\<close>; its two index arrays of equal length are one list of (row, column) pairs.
  An index outside the table raises IndexError at the first table access.
\<close>

definition calc_qual_map ::
  "(real list list \<Rightarrow> (nat \<times> nat) list) \<Rightarrow> (box \<Rightarrow> box \<Rightarrow> real)
     \<Rightarrow> gt_instance list \<Rightarrow> det_instance list \<Rightarrow> bool \<Rightarrow> error + results" where
  "calc_qual_map lsa iou gt_instances det_instances scd =
     (if length gt_instances = 0 \<or> length det_instances = 0
      then bind (if length det_instances > 0
                 then bind (mapM (\<lambda>det_instance. np_max (butlast (prob_dist det_instance)))
                              det_instances)
                        (\<lambda>costs. Inr (sum_list costs))
                 else Inr 0)
             (\<lambda>tot_fp_cost.
                Inr \<lparr>overall = 0, spatial = 0, label = 0, fp_cost = tot_fp_cost, TP = 0,
                     FP = length det_instances, FN = length gt_instances, state_change = 0\<rparr>)
      else
        bind (gen_cost_tables iou gt_instances det_instances scd) (\<lambda>tables.
          let matches = lsa (ct_overall tables);
              overall_quality_table = one_minus (ct_overall tables);
              spatial_quality_table = one_minus (ct_spatial tables);
              label_quality_table = one_minus (ct_label tables);
              state_change_quality_table = one_minus (ct_state tables);
              n = length overall_quality_table
          in if \<not> list_all (\<lambda>(row_id, col_id). row_id < n \<and> col_id < n) matches
             then Inl IndexError
             else
               (case fold (classify_match overall_quality_table (length gt_instances)
                             (length det_instances)) matches (0, 0, 0, [])
                of (true_positives, false_positives, false_negatives, false_positive_idxs) \<Rightarrow>
                  let tot_overall_img_quality = sum_at overall_quality_table matches;
                      tot_tp_spatial_quality =
                        sum_at (zero_where overall_quality_table spatial_quality_table) matches;
                      tot_tp_label_quality =
                        sum_at (zero_where overall_quality_table label_quality_table) matches;
                      tot_tp_state_change_quality =
                        sum_at (zero_where overall_quality_table state_change_quality_table)
                          matches
                  in bind (mapM (\<lambda>i. fp_cost_of scd (det_instances ! i)) false_positive_idxs)
                       (\<lambda>costs.
                          Inr \<lparr>overall = tot_overall_img_quality,
                               spatial = tot_tp_spatial_quality,
                               label = tot_tp_label_quality, fp_cost = sum_list costs,
                               TP = true_positives, FP = false_positives,
                               FN = false_negatives,
                               state_change = tot_tp_state_change_quality\<rparr>))))"

subsection \<open>Adding maps to the accumulator\<close>

definition add_map_eval ::
  "(real list list \<Rightarrow> (nat \<times> nat) list) \<Rightarrow> (box \<Rightarrow> box \<Rightarrow> real) \<Rightarrow> cdq3d
     \<Rightarrow> gt_instance list \<Rightarrow> det_instance list \<Rightarrow> error + cdq3d" where
  "add_map_eval lsa iou self gt_instances det_instances =
     bind (calc_qual_map lsa iou gt_instances det_instances (scd_mode self)) (\<lambda>results.
       Inr (self\<lparr>tot_overall_quality := tot_overall_quality self + overall results,
              tot_spatial_quality := tot_spatial_quality self + spatial results,
              tot_label_quality := tot_label_quality self + label results,
              tot_fp_cost := tot_fp_cost self + fp_cost results,
              tot_TP := tot_TP self + TP results,
              tot_FP := tot_FP self + FP results,
              tot_FN := tot_FN self + FN results,
              tot_state_quality := tot_state_quality self + state_change results\<rparr>))"

definition get_map_evals ::
  "(real list list \<Rightarrow> (nat \<times> nat) list) \<Rightarrow> (box \<Rightarrow> box \<Rightarrow> real) \<Rightarrow> cdq3d
     \<Rightarrow> gt_instance list \<times> det_instance list \<Rightarrow> error + results" where
  "get_map_evals lsa iou self parameters =
     (case parameters of (gt_instances, det_instances) \<Rightarrow>
        calc_qual_map lsa iou gt_instances det_instances (scd_mode self))"

text \<open>The loop of \<open>score\<close> over \<open>param_lists\<close>.\<close>

fun score_loop ::
  "(real list list \<Rightarrow> (nat \<times> nat) list) \<Rightarrow> (box \<Rightarrow> box \<Rightarrow> real) \<Rightarrow> cdq3d
     \<Rightarrow> (gt_instance list \<times> det_instance list) list \<Rightarrow> error + cdq3d" where
  "score_loop lsa iou self [] = Inr self"
| "score_loop lsa iou self (map_params # rest) =
     bind (get_map_evals lsa iou self map_params) (\<lambda>map_results.
       score_loop lsa iou
         (self\<lparr>tot_overall_quality := tot_overall_quality self + overall map_results,
               tot_spatial_quality := tot_spatial_quality self + spatial map_results,
               tot_label_quality := tot_label_quality self + label map_results,
               tot_fp_cost := tot_fp_cost self + fp_cost map_results,
               tot_TP := tot_TP self + TP map_results,
               tot_FP := tot_FP self + FP map_results,
               tot_FN := tot_FN self + FN map_results,
               tot_state_quality := tot_state_quality self + state_change map_results\<rparr>)
         rest)"

text \<open>\<open>score\<close> returns the score; the model returns the updated object with it.\<close>

definition score ::
  "(real list list \<Rightarrow> (nat \<times> nat) list) \<Rightarrow> (box \<Rightarrow> box \<Rightarrow> real) \<Rightarrow> cdq3d
     \<Rightarrow> (gt_instance list \<times> det_instance list) list \<Rightarrow> error + (cdq3d \<times> real)" where
  "score lsa iou self param_lists =
     bind (score_loop lsa iou (reset self) param_lists) (\<lambda>self'.
       bind (get_current_score self') (\<lambda>v. Inr (self', v)))"

subsection \<open>The data model and the solver's contract, as the specification words them\<close>

text \<open>
  A validated map over \<open>C\<close> object classes (index \<open>C\<close> is the background): class ids
  index the vocabulary, every detection has \<open>C + 1\<close> non-negative label probabilities,
  overlaps are non-negative, and in scene-change mode every ground truth has a state and
  every detection three non-negative state probabilities.
\<close>

definition valid_gt :: "nat \<Rightarrow> bool \<Rightarrow> gt_instance \<Rightarrow> bool" where
  "valid_gt C scd gt =
     (0 \<le> class_id gt \<and> class_id gt \<le> int C \<and>
      (if scd then (case state gt of None \<Rightarrow> False | Some s \<Rightarrow> STATE_IDS s \<noteq> None) else True))"

definition valid_det :: "nat \<Rightarrow> bool \<Rightarrow> det_instance \<Rightarrow> bool" where
  "valid_det C scd det =
     (length (prob_dist det) = C + 1 \<and> list_all (\<lambda>p. 0 \<le> p) (prob_dist det) \<and>
      (if scd
       then (case state_probs det of None \<Rightarrow> False
             | Some ps \<Rightarrow> length ps = 3 \<and> list_all (\<lambda>p. 0 \<le> p) ps)
       else True))"

definition valid_map ::
  "nat \<Rightarrow> (box \<Rightarrow> box \<Rightarrow> real) \<Rightarrow> bool \<Rightarrow> gt_instance list \<Rightarrow> det_instance list \<Rightarrow> bool" where
  "valid_map C iou scd gts dets =
     (1 \<le> C \<and> list_all (valid_gt C scd) gts \<and> list_all (valid_det C scd) dets \<and>
      list_all (\<lambda>gt. list_all (\<lambda>det. 0 \<le> iou (box_of gt) (box_of det)) dets) gts)"

text \<open>The three pairwise quality components and their geometric mean.\<close>

definition label_quality :: "gt_instance \<Rightarrow> det_instance \<Rightarrow> real" where
  "label_quality gt det = prob_dist det ! nat (class_id gt)"

definition spatial_quality :: "(box \<Rightarrow> box \<Rightarrow> real) \<Rightarrow> gt_instance \<Rightarrow> det_instance \<Rightarrow> real" where
  "spatial_quality iou gt det = iou (box_of gt) (box_of det)"

definition state_quality :: "gt_instance \<Rightarrow> det_instance \<Rightarrow> real" where
  "state_quality gt det = the (state_probs det) ! nat (the (STATE_IDS (the (state gt))))"

definition pair_quality ::
  "(box \<Rightarrow> box \<Rightarrow> real) \<Rightarrow> bool \<Rightarrow> gt_instance \<Rightarrow> det_instance \<Rightarrow> real" where
  "pair_quality iou scd gt det =
     (if scd
      then root 3 (label_quality gt det * spatial_quality iou gt det * state_quality gt det)
      else sqrt (label_quality gt det * spatial_quality iou gt det))"

text \<open>Pairwise quality over the padded index range: a phantom counterpart has quality 0.\<close>

definition padded_quality ::
  "(box \<Rightarrow> box \<Rightarrow> real) \<Rightarrow> bool \<Rightarrow> gt_instance list \<Rightarrow> det_instance list
     \<Rightarrow> nat \<times> nat \<Rightarrow> real" where
  "padded_quality iou scd gts dets match =
     (case match of (r, c) \<Rightarrow>
        if r < length gts \<and> c < length dets then pair_quality iou scd (gts ! r) (dets ! c)
        else 0)"

text \<open>A one-to-one matching of \<open>n\<close> rows with \<open>n\<close> columns, and an optimal one for a
  cost table: the contract of the assignment solver.\<close>

definition is_assignment :: "nat \<Rightarrow> (nat \<times> nat) list \<Rightarrow> bool" where
  "is_assignment n matches =
     (distinct (map fst matches) \<and> set (map fst matches) = {0..<n} \<and>
      distinct (map snd matches) \<and> set (map snd matches) = {0..<n})"

definition optimal_assignment :: "real list list \<Rightarrow> (nat \<times> nat) list \<Rightarrow> bool" where
  "optimal_assignment cost matches =
     (is_assignment (length cost) matches \<and>
      (\<forall>other. is_assignment (length cost) other \<longrightarrow> sum_at cost matches \<le> sum_at cost other))"

subsection \<open>Closed forms of the tables\<close>

text \<open>
  A quality matrix over the ground truths and detections, the padded cost table of a
  quality function, and the entry of the quality table that \<open>1 - cost\<close> gives back.
\<close>

definition qual_mat :: "('a \<Rightarrow> 'b \<Rightarrow> real) \<Rightarrow> 'a list \<Rightarrow> 'b list \<Rightarrow> real list list" where
  "qual_mat q gts dets = map (\<lambda>gt. map (\<lambda>det. q gt det) dets) gts"

definition padded_cost :: "nat \<Rightarrow> nat \<Rightarrow> nat \<Rightarrow> (nat \<Rightarrow> nat \<Rightarrow> real) \<Rightarrow> real list list" where
  "padded_cost n g d q =
     map (\<lambda>r. map (\<lambda>c. if r < g \<and> c < d then 1 - q r c else 1) [0..<n]) [0..<n]"

definition padded :: "nat \<Rightarrow> nat \<Rightarrow> (nat \<Rightarrow> nat \<Rightarrow> real) \<Rightarrow> nat \<times> nat \<Rightarrow> real" where
  "padded g d q match = (case match of (r, c) \<Rightarrow> if r < g \<and> c < d then q r c else 0)"

definition state_padded :: "bool \<Rightarrow> gt_instance list \<Rightarrow> det_instance list \<Rightarrow> nat \<times> nat \<Rightarrow> real" where
  "state_padded scd gts dets =
     padded (if scd then length gts else 0) (if scd then length dets else 0)
       (\<lambda>r c. state_quality (gts ! r) (dets ! c))"

subsection \<open>The false positive cost, as the specification words it\<close>

text \<open>The maximum label probability excluding the final (background) class, and the
  maximum state probability excluding the final state (constant).\<close>

definition max_label_prob :: "det_instance \<Rightarrow> real" where
  "max_label_prob det = Max (set (butlast (prob_dist det)))"

definition max_state_prob :: "det_instance \<Rightarrow> real" where
  "max_state_prob det = Max (set (butlast (the (state_probs det))))"

definition fp_cost_spec :: "bool \<Rightarrow> det_instance \<Rightarrow> real" where
  "fp_cost_spec scd det =
     (if scd then sqrt (max_label_prob det * max_state_prob det) else max_label_prob det)"

text \<open>The matched pairs whose detection is a false positive.\<close>

definition false_positive_matches ::
  "(box \<Rightarrow> box \<Rightarrow> real) \<Rightarrow> bool \<Rightarrow> gt_instance list \<Rightarrow> det_instance list
     \<Rightarrow> (nat \<times> nat) list \<Rightarrow> (nat \<times> nat) list" where
  "false_positive_matches iou scd gts dets ms =
     filter (\<lambda>m. \<not> padded_quality iou scd gts dets m > 0 \<and> snd m < length dets) ms"

subsection \<open>The solver's contract at one map\<close>

text \<open>
  The solver is only ever called on the overall cost table of the map; these two
  predicates say that its answer there is a one-to-one matching, and an optimal one.
\<close>

definition solver_assigns ::
  "(real list list \<Rightarrow> (nat \<times> nat) list) \<Rightarrow> (box \<Rightarrow> box \<Rightarrow> real)
     \<Rightarrow> gt_instance list \<Rightarrow> det_instance list \<Rightarrow> bool \<Rightarrow> bool" where
  "solver_assigns lsa iou gts dets scd =
     (case gen_cost_tables iou gts dets scd of
        Inl e \<Rightarrow> False
      | Inr tables \<Rightarrow> is_assignment (length (ct_overall tables)) (lsa (ct_overall tables)))"

definition solver_optimal ::
  "(real list list \<Rightarrow> (nat \<times> nat) list) \<Rightarrow> (box \<Rightarrow> box \<Rightarrow> real)
     \<Rightarrow> gt_instance list \<Rightarrow> det_instance list \<Rightarrow> bool \<Rightarrow> bool" where
  "solver_optimal lsa iou gts dets scd =
     (case gen_cost_tables iou gts dets scd of
        Inl e \<Rightarrow> False
      | Inr tables \<Rightarrow> optimal_assignment (ct_overall tables) (lsa (ct_overall tables)))"

text \<open>The total pairwise quality of a matching over the padded index range.\<close>

definition matching_quality ::
  "(box \<Rightarrow> box \<Rightarrow> real) \<Rightarrow> bool \<Rightarrow> gt_instance list \<Rightarrow> det_instance list
     \<Rightarrow> (nat \<times> nat) list \<Rightarrow> real" where
  "matching_quality iou scd gts dets matches =
     sum_list (map (padded_quality iou scd gts dets) matches)"

subsection \<open>Bounds on a map\<close>

text \<open>Every entry of a table lies in the unit interval.\<close>

definition in_unit_interval :: "real list list \<Rightarrow> bool" where
  "in_unit_interval table = list_all (list_all (\<lambda>x. 0 \<le> x \<and> x \<le> 1)) table"

text \<open>No label probability, state probability or overlap of the map exceeds 1.\<close>

definition bounded_map ::
  "(box \<Rightarrow> box \<Rightarrow> real) \<Rightarrow> bool \<Rightarrow> gt_instance list \<Rightarrow> det_instance list \<Rightarrow> bool" where
  "bounded_map iou scd gts dets =
     (list_all (\<lambda>det. list_all (\<lambda>p. p \<le> 1) (prob_dist det) \<and>
                     (if scd then (case state_probs det of None \<Rightarrow> True
                                   | Some ps \<Rightarrow> list_all (\<lambda>p. p \<le> 1) ps)
                      else True)) dets \<and>
      list_all (\<lambda>gt. list_all (\<lambda>det. iou (box_of gt) (box_of det) \<le> 1) dets) gts)"

subsection \<open>Scoring, as the specification words it, and sequences of calls\<close>

text \<open>\<open>add_map_eval\<close> for each pair of the list, in order.\<close>

fun add_each ::
  "(real list list \<Rightarrow> (nat \<times> nat) list) \<Rightarrow> (box \<Rightarrow> box \<Rightarrow> real) \<Rightarrow> cdq3d
     \<Rightarrow> (gt_instance list \<times> det_instance list) list \<Rightarrow> error + cdq3d" where
  "add_each lsa iou self [] = Inr self"
| "add_each lsa iou self ((gt, det) # rest) =
     bind (add_map_eval lsa iou self gt det) (\<lambda>self'. add_each lsa iou self' rest)"

definition reset_add_each_then_score ::
  "(real list list \<Rightarrow> (nat \<times> nat) list) \<Rightarrow> (box \<Rightarrow> box \<Rightarrow> real) \<Rightarrow> cdq3d
     \<Rightarrow> (gt_instance list \<times> det_instance list) list \<Rightarrow> error + (cdq3d \<times> real)" where
  "reset_add_each_then_score lsa iou self param_lists =
     bind (add_each lsa iou (reset self) param_lists) (\<lambda>self'.
       bind (get_current_score self') (\<lambda>v. Inr (self', v)))"

text \<open>A call of \<open>add_map_eval\<close> or of \<open>score\<close> on an accumulator.\<close>

datatype call =
  AddMapEval "gt_instance list" "det_instance list"
| Score "(gt_instance list \<times> det_instance list) list"

fun run_calls ::
  "(real list list \<Rightarrow> (nat \<times> nat) list) \<Rightarrow> (box \<Rightarrow> box \<Rightarrow> real) \<Rightarrow> cdq3d
     \<Rightarrow> call list \<Rightarrow> error + cdq3d" where
  "run_calls lsa iou self [] = Inr self"
| "run_calls lsa iou self (AddMapEval gt det # rest) =
     bind (add_map_eval lsa iou self gt det) (\<lambda>self'. run_calls lsa iou self' rest)"
| "run_calls lsa iou self (Score param_lists # rest) =
     bind (score lsa iou self param_lists) (\<lambda>(self', v). run_calls lsa iou self' rest)"

text \<open>A map the accumulator can evaluate: valid, and when it is non-empty the solver
  answers its overall cost table with a one-to-one matching.\<close>

definition valid_call ::
  "nat \<Rightarrow> (real list list \<Rightarrow> (nat \<times> nat) list) \<Rightarrow> (box \<Rightarrow> box \<Rightarrow> real) \<Rightarrow> bool
     \<Rightarrow> gt_instance list \<times> det_instance list \<Rightarrow> bool" where
  "valid_call C lsa iou scd params =
     (case params of (gts, dets) \<Rightarrow>
        valid_map C iou scd gts dets \<and>
        (gts = [] \<or> dets = [] \<or> solver_assigns lsa iou gts dets scd))"

fun valid_calls ::
  "nat \<Rightarrow> (real list list \<Rightarrow> (nat \<times> nat) list) \<Rightarrow> (box \<Rightarrow> box \<Rightarrow> real) \<Rightarrow> bool
     \<Rightarrow> call list \<Rightarrow> bool" where
  "valid_calls C lsa iou scd [] = True"
| "valid_calls C lsa iou scd (AddMapEval gts dets # rest) =
     (valid_call C lsa iou scd (gts, dets) \<and> valid_calls C lsa iou scd rest)"
| "valid_calls C lsa iou scd (Score param_lists # rest) =
     (list_all (valid_call C lsa iou scd) param_lists \<and> valid_calls C lsa iou scd rest)"

subsection \<open>Concrete maps\<close>

text \<open>
  Small maps in the style of the scenarios of the specification, with overlap functions
  given by cases on the boxes (1 on identical boxes, 0 on disjoint ones).
\<close>

definition unit_box :: box where
  "unit_box = \<lparr>centroid = [0, 0, 0], extent = [1, 1, 1]\<rparr>"

definition far_box :: box where
  "far_box = \<lparr>centroid = [5, 5, 5], extent = [1, 1, 1]\<rparr>"

definition same_box_iou :: "box \<Rightarrow> box \<Rightarrow> real" where
  "same_box_iou a b = (if a = b then 1 else 0)"

definition gt_at :: "box \<Rightarrow> int \<Rightarrow> string \<Rightarrow> gt_instance" where
  "gt_at b k s = \<lparr>centroid = centroid b, extent = extent b, class_id = k, state = Some s\<rparr>"

definition det_at :: "box \<Rightarrow> real list \<Rightarrow> real list \<Rightarrow> det_instance" where
  "det_at b ps ss = \<lparr>centroid = centroid b, extent = extent b, prob_dist = ps, state_probs = Some ss\<rparr>"

text \<open>Two ground truths and two detections: each detection fits the other ground truth.\<close>

definition scenario_D_gts :: "gt_instance list" where
  "scenario_D_gts = [gt_at unit_box 0 ''added'', gt_at far_box 1 ''removed'']"

definition scenario_D_dets :: "det_instance list" where
  "scenario_D_dets = [det_at far_box [0, 1, 0] [0, 1, 0], det_at unit_box [1, 0, 0] [1, 0, 0]]"

text \<open>Two solvers' answers on a table of size 2: the cross and the identity pairing.\<close>

definition cross_solver :: "real list list \<Rightarrow> (nat \<times> nat) list" where
  "cross_solver cost = [(0, 1), (1, 0)]"

definition identity_solver :: "real list list \<Rightarrow> (nat \<times> nat) list" where
  "identity_solver cost = [(0, 0), (1, 1)]"

text \<open>One detection (for the second ground truth), one detection with top non-background
  probability 0.7, and a scene-change pair with state probability 0.9.\<close>

definition missed_dets :: "det_instance list" where
  "missed_dets = [det_at far_box [0, 1, 0] [0, 1, 0]]"

definition scenario_C_dets :: "det_instance list" where
  "scenario_C_dets = [det_at unit_box [7 / 10, 1 / 10, 1 / 5] [1, 0, 0]]"

definition scenario_E_gts :: "gt_instance list" where
  "scenario_E_gts = [gt_at unit_box 0 ''added'']"

definition scenario_E_dets :: "det_instance list" where
  "scenario_E_dets = [det_at unit_box [1, 0, 0] [9 / 10, 1 / 20, 1 / 20]]"

text \<open>A unit cube with two neighbours shifted by 28/53 to either side: each overlaps it
  with ratio 25/81 and they are disjoint from each other. The identity pairing has the
  single best pair, the cross pairing the best total.\<close>

definition near_box :: box where
  "near_box = \<lparr>centroid = [28 / 53, 0, 0], extent = [1, 1, 1]\<rparr>"

definition side_box :: box where
  "side_box = \<lparr>centroid = [- 28 / 53, 0, 0], extent = [1, 1, 1]\<rparr>"

definition overlap_iou :: "box \<Rightarrow> box \<Rightarrow> real" where
  "overlap_iou a b =
     (if a = b then 1
      else if a = unit_box \<and> (b = near_box \<or> b = side_box) then 25 / 81
      else if b = unit_box \<and> (a = near_box \<or> a = side_box) then 25 / 81
      else 0)"

definition overlap_gts :: "gt_instance list" where
  "overlap_gts = [gt_at unit_box 0 ''added'', gt_at near_box 0 ''added'']"

definition overlap_dets :: "det_instance list" where
  "overlap_dets = [det_at unit_box [1, 0, 0] [1, 0, 0], det_at side_box [1, 0, 0] [1, 0, 0]]"

section \<open>Supporting lemmas\<close>

subsection \<open>Errors, lists and the numpy primitives\<close>

lemma bind_Inr [simp]: "bind (Inr v) f = f v" by (simp add: bind_def)

lemma bind_Inl [simp]: "bind (Inl e) f = Inl e" by (simp add: bind_def)

lemma bind_eq_Inr: "bind m f = Inr y \<longleftrightarrow> (\<exists>v. m = Inr v \<and> f v = Inr y)"
  by (cases m) auto

lemma mapM_Inr: "(\<And>x. x \<in> set xs \<Longrightarrow> f x = Inr (h x)) \<Longrightarrow> mapM f xs = Inr (map h xs)"
  by (induction xs) auto

lemma fold_max_Max: "fold max xs (x::'a::linorder) = Max (set (x # xs))"
proof (induction xs arbitrary: x)
  case Nil then show ?case by simp
next
  case (Cons y ys)
  have "fold max (y # ys) x = Max (set (max y x # ys))" using Cons by simp
  also have "\<dots> = Max (set (x # y # ys))"
    by (cases "ys = []") (auto simp: max.commute max.assoc max.left_commute)
  finally show ?case .
qed

lemma np_max_Max: "xs \<noteq> [] \<Longrightarrow> np_max xs = Inr (Max (set xs))"
  by (cases xs) (simp_all add: fold_max_Max del: set_simps)

subsection \<open>The geometric mean of two and of three components\<close>

lemma gmean2: assumes "0 \<le> a" "0 \<le> b" shows "gmean [a, b] = sqrt (a * b)"
proof (cases "a = 0 \<or> b = 0")
  case True then show ?thesis by (auto simp: gmean_def)
next
  case False
  with assms have pos: "0 < a" "0 < b" by auto
  have "(exp ((ln a + ln b) / 2))\<^sup>2 = exp (ln a + ln b)"
    by (simp flip: exp_double)
  also have "\<dots> = a * b" using pos by (simp add: exp_add)
  finally have "sqrt (a * b) = exp ((ln a + ln b) / 2)"
    by (intro real_sqrt_unique) auto
  with pos show ?thesis by (simp add: gmean_def)
qed

lemma gmean3: assumes "0 \<le> a" "0 \<le> b" "0 \<le> c" shows "gmean [a, b, c] = root 3 (a * b * c)"
proof (cases "a = 0 \<or> b = 0 \<or> c = 0")
  case True then show ?thesis by (auto simp: gmean_def)
next
  case False
  with assms have pos: "0 < a" "0 < b" "0 < c" by auto
  have "(exp ((ln a + ln b + ln c) / 3)) ^ 3 = exp (of_nat 3 * ((ln a + ln b + ln c) / 3))"
    by (simp only: exp_of_nat_mult)
  also have "\<dots> = exp (ln a + ln b + ln c)" by simp
  also have "\<dots> = a * b * c" using pos by (simp add: exp_add)
  finally have "root 3 (a * b * c) = exp ((ln a + ln b + ln c) / 3)"
    by (intro real_root_pos_unique) auto
  with pos show ?thesis by (simp add: gmean_def)
qed

subsection \<open>The quality matrices of a valid map\<close>

lemma qual_mat_nth: "i < length gts \<Longrightarrow> j < length dets \<Longrightarrow> qual_mat q gts dets ! i ! j = q (gts ! i) (dets ! j)"
  by (simp add: qual_mat_def)

lemma qual_mat_shape: "map length (qual_mat q gts dets) = map (\<lambda>_. length dets) gts"
  by (simp add: qual_mat_def)

lemma length_qual_mat: "length (qual_mat q gts dets) = length gts"
  by (simp add: qual_mat_def)

lemma sub_block_ones:
  "sub_block g d (np_ones n) Q = padded_cost n g d (\<lambda>r c. Q ! r ! c)"
  by (simp add: sub_block_def np_ones_def padded_cost_def)

lemma vectorize_map_gts_plain:
  "vectorize_map_gts gts False = Inr (map box_of gts, map class_id gts, map (\<lambda>gt. - 1) gts)"
  by (simp add: vectorize_map_gts_def)

lemma gt_state_id_valid:
  "valid_gt C True gt \<Longrightarrow> gt_state_id gt = Inr (the (STATE_IDS (the (state gt))))"
  by (auto simp: valid_gt_def gt_state_id_def split: option.splits)

lemma vectorize_map_gts_scd:
  assumes "list_all (valid_gt C True) gts"
  shows "vectorize_map_gts gts True =
    Inr (map box_of gts, map class_id gts, map (\<lambda>gt. the (STATE_IDS (the (state gt)))) gts)"
proof -
  have "mapM gt_state_id gts = Inr (map (\<lambda>gt. the (STATE_IDS (the (state gt)))) gts)"
    using assms by (intro mapM_Inr) (auto simp: list_all_iff gt_state_id_valid)
  then show ?thesis by (simp add: vectorize_map_gts_def)
qed

lemma np_stack_same:
  "rows \<noteq> [] \<Longrightarrow> list_all (\<lambda>r. length r = k) rows \<Longrightarrow> np_stack rows = Inr rows"
  by (cases rows) (auto simp: np_stack_def list_all_iff)

lemma vectorize_map_dets_plain:
  assumes "dets \<noteq> []" "list_all (valid_det C False) dets"
  shows "vectorize_map_dets dets False =
    Inr (map box_of dets, map prob_dist dets, map (\<lambda>det. [- 1, - 1, - 1]) dets)"
proof -
  have "np_stack (map prob_dist dets) = Inr (map prob_dist dets)"
    using assms by (intro np_stack_same[where k = "C + 1"]) (auto simp: list_all_iff valid_det_def)
  then show ?thesis by (simp add: vectorize_map_dets_def)
qed

lemma det_state_probs_valid:
  "valid_det C True det \<Longrightarrow> det_state_probs det = Inr (the (state_probs det))"
  by (auto simp: valid_det_def det_state_probs_def split: option.splits)

lemma valid_det_state_length:
  "valid_det C True det \<Longrightarrow> length (the (state_probs det)) = 3"
  by (auto simp: valid_det_def split: option.splits)

lemma vectorize_map_dets_scd:
  assumes "dets \<noteq> []" "list_all (valid_det C True) dets"
  shows "vectorize_map_dets dets True =
    Inr (map box_of dets, map prob_dist dets, map (\<lambda>det. the (state_probs det)) dets)"
proof -
  have a: "np_stack (map prob_dist dets) = Inr (map prob_dist dets)"
    using assms by (intro np_stack_same[where k = "C + 1"]) (auto simp: list_all_iff valid_det_def)
  have b: "mapM det_state_probs dets = Inr (map (\<lambda>det. the (state_probs det)) dets)"
    using assms by (intro mapM_Inr) (auto simp: list_all_iff det_state_probs_valid)
  have c: "np_stack (map (\<lambda>det. the (state_probs det)) dets) = Inr (map (\<lambda>det. the (state_probs det)) dets)"
    using assms by (intro np_stack_same[where k = 3]) (auto simp: list_all_iff valid_det_state_length)
  show ?thesis by (simp add: vectorize_map_dets_def a b c)
qed

lemma py_index_nat: "0 \<le> i \<Longrightarrow> i < int (length xs) \<Longrightarrow> py_index xs i = Inr (xs ! nat i)"
  by (simp add: py_index_def)

lemma calc_label_qual_valid:
  assumes "list_all (valid_gt C scd) gts" "list_all (valid_det C scd) dets"
  shows "calc_label_qual (map class_id gts) (map prob_dist dets) = Inr (qual_mat label_quality gts dets)"
proof -
  have row: "mapM (\<lambda>p. py_index p l) (map prob_dist dets) = Inr (map (\<lambda>p. p ! nat l) (map prob_dist dets))"
    if "l \<in> set (map class_id gts)" for l
  proof (intro mapM_Inr)
    fix p assume "p \<in> set (map prob_dist dets)"
    then have "length p = C + 1" using assms(2) by (auto simp: list_all_iff valid_det_def)
    moreover have "0 \<le> l" "l \<le> int C" using that assms(1) by (auto simp: list_all_iff valid_gt_def)
    ultimately show "py_index p l = Inr (p ! nat l)" by (intro py_index_nat) auto
  qed
  have "mapM (\<lambda>l. mapM (\<lambda>p. py_index p l) (map prob_dist dets)) (map class_id gts)
     = Inr (map (\<lambda>l. map (\<lambda>p. p ! nat l) (map prob_dist dets)) (map class_id gts))"
    by (rule mapM_Inr) (rule row)
  then show ?thesis by (simp add: calc_label_qual_def qual_mat_def label_quality_def comp_def)
qed

lemma calc_spatial_qual_eq:
  "calc_spatial_qual iou (map box_of gts) (map box_of dets) = qual_mat (spatial_quality iou) gts dets"
  by (simp add: calc_spatial_qual_def qual_mat_def spatial_quality_def comp_def)

lemma calc_state_change_qual_plain:
  "gts \<noteq> [] \<Longrightarrow> calc_state_change_qual (map (\<lambda>gt. - 1) gts) M = Inr None"
proof -
  assume "gts \<noteq> []"
  then have "np_max (map (\<lambda>gt. - 1 :: int) gts) = Inr (- 1)"
    by (subst np_max_Max) (auto simp: )
  then show ?thesis by (simp add: calc_state_change_qual_def)
qed

lemma STATE_IDS_range: "STATE_IDS s = Some i \<Longrightarrow> 0 \<le> i \<and> i < 3"
  by (auto simp: STATE_IDS_def split: if_splits)

lemma valid_gt_state_range:
  "valid_gt C True gt \<Longrightarrow> 0 \<le> the (STATE_IDS (the (state gt))) \<and> the (STATE_IDS (the (state gt))) < 3"
  by (auto simp: valid_gt_def split: option.splits dest: STATE_IDS_range)

lemma calc_state_change_qual_scd:
  assumes "gts \<noteq> []" "list_all (valid_gt C True) gts" "list_all (valid_det C True) dets"
  shows "calc_state_change_qual (map (\<lambda>gt. the (STATE_IDS (the (state gt)))) gts)
           (map (\<lambda>det. the (state_probs det)) dets)
         = Inr (Some (qual_mat state_quality gts dets))"
proof -
  let ?ids = "map (\<lambda>gt. the (STATE_IDS (the (state gt)))) gts"
  have ne: "?ids \<noteq> []" using assms by simp
  have "Max (set ?ids) \<in> set ?ids" using ne by (intro Max_in) auto
  then obtain gt where "gt \<in> set gts" "Max (set ?ids) = the (STATE_IDS (the (state gt)))" by auto
  then have "0 \<le> Max (set ?ids)" using assms(2) valid_gt_state_range[of C gt] by (simp add: list_all_iff)
  then have m: "np_max ?ids = Inr (Max (set ?ids))" "Max (set ?ids) \<noteq> - 1"
    using ne by (auto simp: np_max_Max)
  have "mapM (\<lambda>s. mapM (\<lambda>p. py_index p s) (map (\<lambda>det. the (state_probs det)) dets)) ?ids
     = Inr (map (\<lambda>s. map (\<lambda>p. p ! nat s) (map (\<lambda>det. the (state_probs det)) dets)) ?ids)"
  proof (rule mapM_Inr)
    fix s assume "s \<in> set ?ids"
    then have s: "0 \<le> s" "s < 3" using assms(2) by (auto simp: list_all_iff dest: valid_gt_state_range)
    show "mapM (\<lambda>p. py_index p s) (map (\<lambda>det. the (state_probs det)) dets)
       = Inr (map (\<lambda>p. p ! nat s) (map (\<lambda>det. the (state_probs det)) dets))"
      using assms(3) s by (intro mapM_Inr) (auto simp: list_all_iff valid_det_state_length intro!: py_index_nat)
  qed
  then show ?thesis using m
    by (simp add: calc_state_change_qual_def qual_mat_def state_quality_def comp_def)
qed

lemma calc_overall_qual_None:
  "calc_overall_qual (qual_mat l gts dets) (qual_mat s gts dets) None
     = Inr (map (\<lambda>i. map (\<lambda>j. gmean [l (gts ! i) (dets ! j), s (gts ! i) (dets ! j)]) [0..<length dets]) [0..<length gts])"
  by (simp add: calc_overall_qual_def qual_mat_shape length_qual_mat qual_mat_nth)
     (simp add: qual_mat_def)

lemma calc_overall_qual_Some:
  "calc_overall_qual (qual_mat l gts dets) (qual_mat s gts dets) (Some (qual_mat t gts dets))
     = Inr (map (\<lambda>i. map (\<lambda>j. gmean [l (gts ! i) (dets ! j), s (gts ! i) (dets ! j), t (gts ! i) (dets ! j)]) [0..<length dets]) [0..<length gts])"
  by (simp add: calc_overall_qual_def qual_mat_shape length_qual_mat qual_mat_nth)
     (simp add: qual_mat_def)

subsection \<open>The cost tables of a valid map\<close>

lemma padded_cost_cong:
  "(\<And>r c. r < g \<Longrightarrow> c < d \<Longrightarrow> q r c = q' r c) \<Longrightarrow> padded_cost n g d q = padded_cost n g d q'"
  by (simp add: padded_cost_def)

lemma padded_cost_nth:
  "r < n \<Longrightarrow> c < n \<Longrightarrow> padded_cost n g d q ! r ! c = (if r < g \<and> c < d then 1 - q r c else 1)"
  by (simp add: padded_cost_def)

lemma length_padded_cost [simp]: "length (padded_cost n g d q) = n"
  by (simp add: padded_cost_def)

lemma np_ones_padded: "np_ones n = padded_cost n 0 0 q"
  by (simp add: padded_cost_def np_ones_def map_replicate_const)

lemma label_quality_nonneg:
  "valid_gt C scd gt \<Longrightarrow> valid_det C scd det \<Longrightarrow> 0 \<le> label_quality gt det"
  by (auto simp: valid_gt_def valid_det_def label_quality_def list_all_length)

lemma state_quality_nonneg:
  assumes "valid_gt C True gt" "valid_det C True det" shows "0 \<le> state_quality gt det"
proof -
  have "nat (the (STATE_IDS (the (state gt)))) < 3"
    using valid_gt_state_range[OF assms(1)] by linarith
  then show ?thesis using assms(2)
    by (auto simp: valid_det_def state_quality_def list_all_length split: option.splits)
qed

lemma valid_map_nth:
  assumes "valid_map C iou scd gts dets" "r < length gts" "c < length dets"
  shows "valid_gt C scd (gts ! r)" "valid_det C scd (dets ! c)"
    "0 \<le> spatial_quality iou (gts ! r) (dets ! c)"
  using assms by (auto simp: valid_map_def list_all_length spatial_quality_def)

lemma gen_cost_tables_plain:
  assumes v: "valid_map C iou False gts dets" and ne: "gts \<noteq> []" "dets \<noteq> []"
  shows "gen_cost_tables iou gts dets False =
    Inr \<lparr>ct_overall = padded_cost (max (length gts) (length dets)) (length gts) (length dets)
            (\<lambda>r c. pair_quality iou False (gts ! r) (dets ! c)),
         ct_spatial = padded_cost (max (length gts) (length dets)) (length gts) (length dets)
            (\<lambda>r c. spatial_quality iou (gts ! r) (dets ! c)),
         ct_label = padded_cost (max (length gts) (length dets)) (length gts) (length dets)
            (\<lambda>r c. label_quality (gts ! r) (dets ! c)),
         ct_state = np_ones (max (length gts) (length dets))\<rparr>"
proof -
  from v have vg: "list_all (valid_gt C False) gts" and vd: "list_all (valid_det C False) dets"
    by (auto simp: valid_map_def)
  have ov: "padded_cost n (length gts) (length dets)
        (\<lambda>r c. map (\<lambda>i. map (\<lambda>j. gmean [label_quality (gts ! i) (dets ! j),
             spatial_quality iou (gts ! i) (dets ! j)]) [0..<length dets]) [0..<length gts] ! r ! c)
      = padded_cost n (length gts) (length dets) (\<lambda>r c. pair_quality iou False (gts ! r) (dets ! c))" for n
  proof (rule padded_cost_cong)
    fix r c assume rc: "r < length gts" "c < length dets"
    then show "map (\<lambda>i. map (\<lambda>j. gmean [label_quality (gts ! i) (dets ! j),
             spatial_quality iou (gts ! i) (dets ! j)]) [0..<length dets]) [0..<length gts] ! r ! c
       = pair_quality iou False (gts ! r) (dets ! c)"
      using valid_map_nth[OF v rc] by (simp add: pair_quality_def gmean2 label_quality_nonneg)
  qed
  have sp: "padded_cost n (length gts) (length dets) (\<lambda>r c. qual_mat q gts dets ! r ! c)
     = padded_cost n (length gts) (length dets) (\<lambda>r c. q (gts ! r) (dets ! c))" for n q
    by (rule padded_cost_cong) (simp add: qual_mat_nth)
  show ?thesis
    by (simp add: gen_cost_tables_def vectorize_map_gts_plain vectorize_map_dets_plain[OF ne(2) vd]
        calc_label_qual_valid[OF vg vd] calc_spatial_qual_eq calc_state_change_qual_plain[OF ne(1)]
        calc_overall_qual_None sub_block_ones ov sp Let_def)
qed

lemma gen_cost_tables_scd:
  assumes v: "valid_map C iou True gts dets" and ne: "gts \<noteq> []" "dets \<noteq> []"
  shows "gen_cost_tables iou gts dets True =
    Inr \<lparr>ct_overall = padded_cost (max (length gts) (length dets)) (length gts) (length dets)
            (\<lambda>r c. pair_quality iou True (gts ! r) (dets ! c)),
         ct_spatial = padded_cost (max (length gts) (length dets)) (length gts) (length dets)
            (\<lambda>r c. spatial_quality iou (gts ! r) (dets ! c)),
         ct_label = padded_cost (max (length gts) (length dets)) (length gts) (length dets)
            (\<lambda>r c. label_quality (gts ! r) (dets ! c)),
         ct_state = padded_cost (max (length gts) (length dets)) (length gts) (length dets)
            (\<lambda>r c. state_quality (gts ! r) (dets ! c))\<rparr>"
proof -
  from v have vg: "list_all (valid_gt C True) gts" and vd: "list_all (valid_det C True) dets"
    by (auto simp: valid_map_def)
  have ov: "padded_cost n (length gts) (length dets)
        (\<lambda>r c. map (\<lambda>i. map (\<lambda>j. gmean [label_quality (gts ! i) (dets ! j),
             spatial_quality iou (gts ! i) (dets ! j), state_quality (gts ! i) (dets ! j)])
               [0..<length dets]) [0..<length gts] ! r ! c)
      = padded_cost n (length gts) (length dets) (\<lambda>r c. pair_quality iou True (gts ! r) (dets ! c))" for n
  proof (rule padded_cost_cong)
    fix r c assume rc: "r < length gts" "c < length dets"
    then show "map (\<lambda>i. map (\<lambda>j. gmean [label_quality (gts ! i) (dets ! j),
             spatial_quality iou (gts ! i) (dets ! j), state_quality (gts ! i) (dets ! j)])
               [0..<length dets]) [0..<length gts] ! r ! c
       = pair_quality iou True (gts ! r) (dets ! c)"
      using valid_map_nth[OF v rc]
      by (simp add: pair_quality_def gmean3 label_quality_nonneg state_quality_nonneg)
  qed
  have sp: "padded_cost n (length gts) (length dets) (\<lambda>r c. qual_mat q gts dets ! r ! c)
     = padded_cost n (length gts) (length dets) (\<lambda>r c. q (gts ! r) (dets ! c))" for n q
    by (rule padded_cost_cong) (simp add: qual_mat_nth)
  show ?thesis
    by (simp add: gen_cost_tables_def vectorize_map_gts_scd[OF vg] vectorize_map_dets_scd[OF ne(2) vd]
        calc_label_qual_valid[OF vg vd] calc_spatial_qual_eq calc_state_change_qual_scd[OF ne(1) vg vd]
        calc_overall_qual_Some sub_block_ones ov sp Let_def)
qed

subsection \<open>The evaluation of a non-empty map\<close>

lemma length_one_minus [simp]: "length (one_minus T) = length T"
  by (simp add: one_minus_def)

lemma one_minus_padded_cost_nth:
  "r < n \<Longrightarrow> c < n \<Longrightarrow> one_minus (padded_cost n g d q) ! r ! c = padded g d q (r, c)"
  by (simp add: one_minus_def padded_cost_def padded_def)

lemma length_one_minus_padded_row:
  "r < n \<Longrightarrow> length (one_minus (padded_cost n g d q) ! r) = n"
  by (simp add: one_minus_def padded_cost_def)

lemma zero_where_nth:
  "r < length T \<Longrightarrow> c < length (T ! r) \<Longrightarrow>
   zero_where M T ! r ! c = (if M ! r ! c = 0 then 0 else T ! r ! c)"
  by (simp add: zero_where_def)

lemma sum_at_cong:
  "(\<And>r c. (r, c) \<in> set ms \<Longrightarrow> T ! r ! c = f (r, c)) \<Longrightarrow> sum_at T ms = sum_list (map f ms)"
  unfolding sum_at_def by (rule arg_cong[where f = sum_list]) auto

lemma classify_match_step:
  "classify_match Q g d (r, c) (tp, fp, fn, idxs) =
     (if Q ! r ! c > 0 then (tp + 1, fp, fn, idxs)
      else (tp, if c < d then fp + 1 else fp, if r < g then fn + 1 else fn,
            if c < d then idxs @ [c] else idxs))"
  by (simp add: classify_match_def)

lemma fold_classify_match:
  "fold (classify_match Q g d) ms (tp, fp, fn, idxs) =
     (tp + length (filter (\<lambda>(r, c). Q ! r ! c > 0) ms),
      fp + length (filter (\<lambda>(r, c). \<not> Q ! r ! c > 0 \<and> c < d) ms),
      fn + length (filter (\<lambda>(r, c). \<not> Q ! r ! c > 0 \<and> r < g) ms),
      idxs @ map snd (filter (\<lambda>(r, c). \<not> Q ! r ! c > 0 \<and> c < d) ms))"
proof (induction ms arbitrary: tp fp fn idxs)
  case Nil
  then show ?case by simp
next
  case (Cons m ms)
  obtain r c where m: "m = (r, c)" by (cases m)
  show ?case by (simp add: m classify_match_step Cons.IH)
qed

lemma filter_cong_set: "(\<And>x. x \<in> set xs \<Longrightarrow> P x = Q x) \<Longrightarrow> filter P xs = filter Q xs"
  by (rule filter_cong) auto

lemma Max_nonneg_list: "xs \<noteq> [] \<Longrightarrow> list_all (\<lambda>p. 0 \<le> (p::real)) xs \<Longrightarrow> 0 \<le> Max (set xs)"
proof -
  assume a: "xs \<noteq> []" "list_all (\<lambda>p. 0 \<le> p) xs"
  then have "Max (set xs) \<in> set xs" by (intro Max_in) auto
  with a(2) show ?thesis by (auto simp: list_all_iff)
qed

lemma list_all_butlast: "list_all P xs \<Longrightarrow> list_all P (butlast xs)"
  by (auto simp: list_all_iff dest: in_set_butlastD)

lemma fp_cost_of_valid:
  assumes "1 \<le> C" "valid_det C scd det"
  shows "fp_cost_of scd det = Inr (fp_cost_spec scd det)"
proof -
  have ne: "butlast (prob_dist det) \<noteq> []"
    using assms by (cases "prob_dist det" rule: rev_cases) (auto simp: valid_det_def)
  have lab: "np_max (butlast (prob_dist det)) = Inr (max_label_prob det)"
    using ne by (simp add: np_max_Max max_label_prob_def)
  show ?thesis
  proof (cases scd)
    case False
    then show ?thesis by (simp add: fp_cost_of_def fp_cost_spec_def lab)
  next
    case True
    with assms obtain ps where ps: "state_probs det = Some ps" "length ps = 3" "list_all (\<lambda>p. 0 \<le> p) ps"
      by (auto simp: valid_det_def split: option.splits)
    have ne2: "butlast ps \<noteq> []" using ps(2) by (cases ps rule: rev_cases) auto
    have st: "np_max (butlast ps) = Inr (max_state_prob det)"
      using ne2 ps by (simp add: np_max_Max max_state_prob_def)
    have "0 \<le> max_label_prob det"
      unfolding max_label_prob_def using assms ne
      by (intro Max_nonneg_list list_all_butlast) (auto simp: valid_det_def)
    moreover have "0 \<le> max_state_prob det"
      unfolding max_state_prob_def using ps ne2
      by (intro Max_nonneg_list list_all_butlast) auto
    ultimately show ?thesis using True
      by (simp add: fp_cost_of_def fp_cost_spec_def lab det_state_probs_def ps st gmean2)
  qed
qed

lemma gen_cost_tables_valid:
  assumes v: "valid_map C iou scd gts dets" and ne: "gts \<noteq> []" "dets \<noteq> []"
  shows "gen_cost_tables iou gts dets scd =
    Inr \<lparr>ct_overall = padded_cost (max (length gts) (length dets)) (length gts) (length dets)
            (\<lambda>r c. pair_quality iou scd (gts ! r) (dets ! c)),
         ct_spatial = padded_cost (max (length gts) (length dets)) (length gts) (length dets)
            (\<lambda>r c. spatial_quality iou (gts ! r) (dets ! c)),
         ct_label = padded_cost (max (length gts) (length dets)) (length gts) (length dets)
            (\<lambda>r c. label_quality (gts ! r) (dets ! c)),
         ct_state = padded_cost (max (length gts) (length dets))
            (if scd then length gts else 0) (if scd then length dets else 0)
            (\<lambda>r c. state_quality (gts ! r) (dets ! c))\<rparr>"
proof (cases scd)
  case True
  then show ?thesis using gen_cost_tables_scd[of C iou gts dets] v ne by simp
next
  case False
  then show ?thesis using gen_cost_tables_plain[of C iou gts dets] v ne
    by (simp flip: np_ones_padded)
qed

lemma padded_quality_eq:
  "padded_quality iou scd gts dets = padded (length gts) (length dets) (\<lambda>r c. pair_quality iou scd (gts ! r) (dets ! c))"
  by (rule ext) (simp add: padded_quality_def padded_def split: prod.splits)

lemma calc_qual_map_closed:
  assumes v: "valid_map C iou scd gts dets" and ne: "gts \<noteq> []" "dets \<noteq> []"
    and T: "T = padded_cost (max (length gts) (length dets)) (length gts) (length dets)
            (\<lambda>r c. pair_quality iou scd (gts ! r) (dets ! c))"
    and rng: "list_all (\<lambda>(r, c). r < max (length gts) (length dets) \<and> c < max (length gts) (length dets)) (lsa T)"
  shows "calc_qual_map lsa iou gts dets scd =
    Inr \<lparr>overall = sum_list (map (padded_quality iou scd gts dets) (lsa T)),
         spatial = sum_list (map (\<lambda>m. if padded_quality iou scd gts dets m = 0 then 0
                       else padded (length gts) (length dets) (\<lambda>r c. spatial_quality iou (gts ! r) (dets ! c)) m) (lsa T)),
         label = sum_list (map (\<lambda>m. if padded_quality iou scd gts dets m = 0 then 0
                       else padded (length gts) (length dets) (\<lambda>r c. label_quality (gts ! r) (dets ! c)) m) (lsa T)),
         fp_cost = sum_list (map (\<lambda>m. fp_cost_spec scd (dets ! snd m))
                       (false_positive_matches iou scd gts dets (lsa T))),
         TP = length (filter (\<lambda>m. padded_quality iou scd gts dets m > 0) (lsa T)),
         FP = length (false_positive_matches iou scd gts dets (lsa T)),
         FN = length (filter (\<lambda>m. \<not> padded_quality iou scd gts dets m > 0 \<and> fst m < length gts) (lsa T)),
         state_change = sum_list (map (\<lambda>m. if padded_quality iou scd gts dets m = 0 then 0
                       else state_padded scd gts dets m) (lsa T))\<rparr>"
proof -
  let ?n = "max (length gts) (length dets)"
  let ?g = "length gts" and ?d = "length dets"
  let ?Q = "padded_quality iou scd gts dets"
  let ?ms = "lsa T"
  let ?OQ = "one_minus T"
  have inr: "r < ?n \<and> c < ?n" if "(r, c) \<in> set ?ms" for r c
    using rng that by (auto simp: list_all_iff)
  have OQ: "?OQ ! r ! c = ?Q (r, c)" if "(r, c) \<in> set ?ms" for r c
    using inr[OF that] by (simp add: T one_minus_padded_cost_nth padded_quality_eq)
  have f1: "filter (\<lambda>(r, c). ?OQ ! r ! c > 0) ?ms = filter (\<lambda>m. ?Q m > 0) ?ms"
    by (rule filter_cong_set) (auto simp: OQ)
  have f2: "filter (\<lambda>(r, c). \<not> ?OQ ! r ! c > 0 \<and> c < ?d) ?ms = false_positive_matches iou scd gts dets ?ms"
    unfolding false_positive_matches_def by (rule filter_cong_set) (auto simp: OQ)
  have f3: "filter (\<lambda>(r, c). \<not> ?OQ ! r ! c > 0 \<and> r < ?g) ?ms
      = filter (\<lambda>m. \<not> ?Q m > 0 \<and> fst m < ?g) ?ms"
    by (rule filter_cong_set) (auto simp: OQ)
  have s0: "sum_at ?OQ ?ms = sum_list (map ?Q ?ms)"
    by (rule sum_at_cong) (rule OQ)
  have sq: "sum_at (zero_where ?OQ (one_minus (padded_cost ?n g' d' q))) ?ms
     = sum_list (map (\<lambda>m. if ?Q m = 0 then 0 else padded g' d' q m) ?ms)" for g' d' q
  proof (rule sum_at_cong)
    fix r c assume rc: "(r, c) \<in> set ?ms"
    then have "r < ?n" "c < ?n" using inr by auto
    then show "zero_where ?OQ (one_minus (padded_cost ?n g' d' q)) ! r ! c
        = (if ?Q (r, c) = 0 then 0 else padded g' d' q (r, c))"
      by (simp add: zero_where_nth length_one_minus_padded_row one_minus_padded_cost_nth OQ[OF rc])
  qed
  have sqs: "sum_at (zero_where ?OQ (one_minus (padded_cost ?n (if scd then ?g else 0)
        (if scd then ?d else 0) (\<lambda>r c. state_quality (gts ! r) (dets ! c))))) ?ms
     = sum_list (map (\<lambda>m. if ?Q m = 0 then 0 else state_padded scd gts dets m) ?ms)"
    unfolding state_padded_def by (rule sq)
  have C1: "1 \<le> C" using v by (simp add: valid_map_def)
  have fp: "mapM (\<lambda>i. fp_cost_of scd (dets ! i)) (map snd (false_positive_matches iou scd gts dets ?ms))
     = Inr (map (\<lambda>i. fp_cost_spec scd (dets ! i)) (map snd (false_positive_matches iou scd gts dets ?ms)))"
  proof (rule mapM_Inr)
    fix i assume "i \<in> set (map snd (false_positive_matches iou scd gts dets ?ms))"
    then have "i < ?d" by (auto simp: false_positive_matches_def)
    then have "valid_det C scd (dets ! i)" using v by (simp add: valid_map_def list_all_length)
    then show "fp_cost_of scd (dets ! i) = Inr (fp_cost_spec scd (dets ! i))"
      by (rule fp_cost_of_valid[OF C1])
  qed
  have rng': "list_all (\<lambda>(r, c). r < length T \<and> c < length T) (lsa T)"
    using rng by (simp add: T)
  show ?thesis
    unfolding calc_qual_map_def state_padded_def
    by (simp add: ne gen_cost_tables_valid[OF v ne] Let_def rng[unfolded T] fold_classify_match
        f1[unfolded T] f2[unfolded T] f3[unfolded T] s0[unfolded T] sq[unfolded T]
        fp[unfolded T] T comp_def split del: if_split)
qed

subsection \<open>One-to-one matchings\<close>

lemma is_assignment_length: "is_assignment n ms \<Longrightarrow> length ms = n"
proof -
  assume a: "is_assignment n ms"
  then have "card (set (map fst ms)) = length (map fst ms)"
    by (intro distinct_card) (simp add: is_assignment_def)
  with a show ?thesis by (simp add: is_assignment_def)
qed

lemma is_assignment_in_range:
  "is_assignment n ms \<Longrightarrow> (r, c) \<in> set ms \<Longrightarrow> r < n \<and> c < n"
proof -
  assume a: "is_assignment n ms" "(r, c) \<in> set ms"
  then have "r \<in> set (map fst ms)" "c \<in> set (map snd ms)" by force+
  with a(1) show ?thesis by (simp add: is_assignment_def)
qed

lemma is_assignment_list_all:
  "is_assignment n ms \<Longrightarrow> list_all (\<lambda>(r, c). r < n \<and> c < n) ms"
  by (auto simp: list_all_iff dest: is_assignment_in_range)

lemma length_filter_distinct_image:
  assumes "distinct (map f ms)"
  shows "length (filter (\<lambda>m. P (f m)) ms) = card {x \<in> set (map f ms). P x}"
proof -
  have "length (filter (\<lambda>m. P (f m)) ms) = length (filter P (map f ms))"
    by (simp add: filter_map comp_def)
  also have "\<dots> = card (set (filter P (map f ms)))"
    using assms by (intro distinct_card[symmetric] distinct_filter)
  also have "set (filter P (map f ms)) = {x \<in> set (map f ms). P x}" by auto
  finally show ?thesis .
qed

lemma count_rows: "is_assignment n ms \<Longrightarrow> g \<le> n \<Longrightarrow> length (filter (\<lambda>m. fst m < g) ms) = g"
proof -
  assume a: "is_assignment n ms" "g \<le> n"
  then have "length (filter (\<lambda>m. fst m < g) ms) = card {x \<in> set (map fst ms). x < g}"
    by (intro length_filter_distinct_image) (simp add: is_assignment_def)
  also have "{x \<in> set (map fst ms). x < g} = {0..<g}" using a by (auto simp: is_assignment_def)
  finally show ?thesis by simp
qed

lemma count_cols: "is_assignment n ms \<Longrightarrow> d \<le> n \<Longrightarrow> length (filter (\<lambda>m. snd m < d) ms) = d"
proof -
  assume a: "is_assignment n ms" "d \<le> n"
  then have "length (filter (\<lambda>m. snd m < d) ms) = card {x \<in> set (map snd ms). x < d}"
    by (intro length_filter_distinct_image) (simp add: is_assignment_def)
  also have "{x \<in> set (map snd ms). x < d} = {0..<d}" using a by (auto simp: is_assignment_def)
  finally show ?thesis by simp
qed

lemma length_filter_split:
  "(\<And>x. x \<in> set xs \<Longrightarrow> P x \<Longrightarrow> R x) \<Longrightarrow>
   length (filter P xs) + length (filter (\<lambda>x. \<not> P x \<and> R x) xs) = length (filter R xs)"
  by (induction xs) auto

lemma padded_pos: "padded g d q (r, c) > 0 \<Longrightarrow> r < g \<and> c < d"
  by (auto simp: padded_def split: if_splits)

lemma sum_list_one_minus:
  "sum_list (map (\<lambda>x. 1 - f x) xs) = real (length xs) - sum_list (map f xs)"
  by (induction xs) auto

lemma sum_at_padded_cost:
  assumes "is_assignment n ms"
  shows "sum_at (padded_cost n g d q) ms = real n - sum_list (map (padded g d q) ms)"
proof -
  have "sum_at (padded_cost n g d q) ms = sum_list (map (\<lambda>m. 1 - padded g d q m) ms)"
  proof (rule sum_at_cong)
    fix r c assume "(r, c) \<in> set ms"
    then have "r < n" "c < n" using is_assignment_in_range[OF assms] by auto
    then show "padded_cost n g d q ! r ! c = 1 - padded g d q (r, c)"
      by (simp add: padded_cost_nth padded_def)
  qed
  then show ?thesis by (simp add: sum_list_one_minus is_assignment_length[OF assms])
qed

lemma pair_quality_nonneg:
  assumes "valid_gt C scd gt" "valid_det C scd det" "0 \<le> spatial_quality iou gt det"
  shows "0 \<le> pair_quality iou scd gt det"
proof (cases scd)
  case True
  then show ?thesis using assms
    by (simp add: pair_quality_def label_quality_nonneg state_quality_nonneg)
next
  case False
  then show ?thesis using assms
    by (simp add: pair_quality_def label_quality_nonneg)
qed

lemma padded_quality_nonneg:
  assumes "valid_map C iou scd gts dets" shows "0 \<le> padded_quality iou scd gts dets m"
proof (cases m)
  case (Pair r c)
  show ?thesis
  proof (cases "r < length gts \<and> c < length dets")
    case True
    then show ?thesis using valid_map_nth[OF assms, of r c] Pair
      by (simp add: padded_quality_def pair_quality_nonneg)
  next
    case False
    then show ?thesis using Pair by (auto simp: padded_quality_def)
  qed
qed

lemma solver_assignsD:
  assumes v: "valid_map C iou scd gts dets" and ne: "gts \<noteq> []" "dets \<noteq> []"
    and s: "solver_assigns lsa iou gts dets scd"
  shows "is_assignment (max (length gts) (length dets))
     (lsa (padded_cost (max (length gts) (length dets)) (length gts) (length dets)
            (\<lambda>r c. pair_quality iou scd (gts ! r) (dets ! c))))"
  using s by (simp add: solver_assigns_def gen_cost_tables_valid[OF v ne])

lemma solver_optimalD:
  assumes v: "valid_map C iou scd gts dets" and ne: "gts \<noteq> []" "dets \<noteq> []"
    and s: "solver_optimal lsa iou gts dets scd"
  shows "optimal_assignment (padded_cost (max (length gts) (length dets)) (length gts) (length dets)
            (\<lambda>r c. pair_quality iou scd (gts ! r) (dets ! c)))
     (lsa (padded_cost (max (length gts) (length dets)) (length gts) (length dets)
            (\<lambda>r c. pair_quality iou scd (gts ! r) (dets ! c))))"
  using s by (simp add: solver_optimal_def gen_cost_tables_valid[OF v ne])

lemma is_assignment_2_cases:
  assumes "is_assignment 2 m"
  shows "m = [(0, 0), (1, 1)] \<or> m = [(1, 1), (0, 0)] \<or> m = [(0, 1), (1, 0)] \<or> m = [(1, 0), (0, 1)]"
proof -
  have "length m = 2" using assms by (rule is_assignment_length)
  then obtain p q where m: "m = [p, q]"
    by (cases m; cases "tl m") auto
  obtain a b c e where pq: "p = (a, b)" "q = (c, e)" by (cases p; cases q) auto
  have r: "a < 2" "b < 2" "c < 2" "e < 2"
    using is_assignment_in_range[OF assms, of a b] is_assignment_in_range[OF assms, of c e]
    by (auto simp: m pq)
  have d: "a \<noteq> c" "b \<noteq> e" using assms by (auto simp: is_assignment_def m pq)
  from r d show ?thesis unfolding m pq by (simp; presburger)
qed

lemma cross_assignment: "is_assignment 2 [(0, 1), (1, 0)]"
  by (auto simp: is_assignment_def)

lemma calc_qual_map_overall_max:
  assumes v: "valid_map C iou scd gts dets" and ne: "gts \<noteq> []" "dets \<noteq> []"
    and opt: "solver_optimal lsa iou gts dets scd"
  shows "\<exists>res. calc_qual_map lsa iou gts dets scd = Inr res \<and>
     (\<exists>m. is_assignment (max (length gts) (length dets)) m \<and>
          overall res = matching_quality iou scd gts dets m) \<and>
     (\<forall>m. is_assignment (max (length gts) (length dets)) m \<longrightarrow>
          matching_quality iou scd gts dets m \<le> overall res)"
proof -
  let ?n = "max (length gts) (length dets)"
  define T where "T = padded_cost ?n (length gts) (length dets)
            (\<lambda>r c. pair_quality iou scd (gts ! r) (dets ! c))"
  have o: "optimal_assignment T (lsa T)"
    using solver_optimalD[OF v ne opt] by (simp add: T_def)
  then have a: "is_assignment ?n (lsa T)" by (simp add: optimal_assignment_def T_def)
  note cf = calc_qual_map_closed[where lsa = lsa and T = T, OF v ne T_def is_assignment_list_all[OF a]]
  have le: "matching_quality iou scd gts dets m \<le> matching_quality iou scd gts dets (lsa T)"
    if m: "is_assignment ?n m" for m
  proof -
    have "sum_at T (lsa T) \<le> sum_at T m" using o m by (simp add: optimal_assignment_def T_def)
    moreover have "sum_at T (lsa T) = real ?n - matching_quality iou scd gts dets (lsa T)"
      unfolding T_def matching_quality_def padded_quality_eq
      by (rule sum_at_padded_cost[OF a[unfolded T_def]])
    moreover have "sum_at T m = real ?n - matching_quality iou scd gts dets m"
      unfolding T_def matching_quality_def padded_quality_eq
      by (rule sum_at_padded_cost[OF m])
    ultimately show ?thesis by simp
  qed
  show ?thesis
    unfolding cf using a le by (auto simp: matching_quality_def)
qed

lemma finite_assignments: "finite {m. is_assignment n m}"
proof -
  have "{m. is_assignment n m} \<subseteq> {m. set m \<subseteq> {0..<n} \<times> {0..<n} \<and> length m = n}"
    using is_assignment_in_range is_assignment_length by fastforce
  moreover have "finite {m. set m \<subseteq> {0..<n} \<times> {0..<n} \<and> length m = n}"
    by (rule finite_lists_length_eq) simp
  ultimately show ?thesis by (rule finite_subset)
qed

lemma greatest_is_Max:
  assumes "is_assignment n m" "\<forall>m'. is_assignment n m' \<longrightarrow> f m' \<le> (f m :: real)"
  shows "f m = Max (f ` {m. is_assignment n m})"
proof -
  have "Max (f ` {m. is_assignment n m}) = f m"
    using assms finite_assignments[of n] by (intro Max_eqI) auto
  then show ?thesis by simp
qed

lemma closed_at_assignment:
  assumes v: "valid_map C iou scd gts dets" and ne: "gts \<noteq> []" "dets \<noteq> []"
    and s: "solver_assigns lsa iou gts dets scd"
    and T: "T = padded_cost (max (length gts) (length dets)) (length gts) (length dets)
            (\<lambda>r c. pair_quality iou scd (gts ! r) (dets ! c))"
  shows "is_assignment (max (length gts) (length dets)) (lsa T)"
    and "calc_qual_map lsa iou gts dets scd =
    Inr \<lparr>overall = sum_list (map (padded_quality iou scd gts dets) (lsa T)),
         spatial = sum_list (map (\<lambda>m. if padded_quality iou scd gts dets m = 0 then 0
                       else padded (length gts) (length dets) (\<lambda>r c. spatial_quality iou (gts ! r) (dets ! c)) m) (lsa T)),
         label = sum_list (map (\<lambda>m. if padded_quality iou scd gts dets m = 0 then 0
                       else padded (length gts) (length dets) (\<lambda>r c. label_quality (gts ! r) (dets ! c)) m) (lsa T)),
         fp_cost = sum_list (map (\<lambda>m. fp_cost_spec scd (dets ! snd m))
                       (false_positive_matches iou scd gts dets (lsa T))),
         TP = length (filter (\<lambda>m. padded_quality iou scd gts dets m > 0) (lsa T)),
         FP = length (false_positive_matches iou scd gts dets (lsa T)),
         FN = length (filter (\<lambda>m. \<not> padded_quality iou scd gts dets m > 0 \<and> fst m < length gts) (lsa T)),
         state_change = sum_list (map (\<lambda>m. if padded_quality iou scd gts dets m = 0 then 0
                       else state_padded scd gts dets m) (lsa T))\<rparr>"
proof -
  show a: "is_assignment (max (length gts) (length dets)) (lsa T)"
    using solver_assignsD[OF v ne s] by (simp add: T)
  show "calc_qual_map lsa iou gts dets scd = Inr \<lparr>overall = sum_list (map (padded_quality iou scd gts dets) (lsa T)),
         spatial = sum_list (map (\<lambda>m. if padded_quality iou scd gts dets m = 0 then 0
                       else padded (length gts) (length dets) (\<lambda>r c. spatial_quality iou (gts ! r) (dets ! c)) m) (lsa T)),
         label = sum_list (map (\<lambda>m. if padded_quality iou scd gts dets m = 0 then 0
                       else padded (length gts) (length dets) (\<lambda>r c. label_quality (gts ! r) (dets ! c)) m) (lsa T)),
         fp_cost = sum_list (map (\<lambda>m. fp_cost_spec scd (dets ! snd m))
                       (false_positive_matches iou scd gts dets (lsa T))),
         TP = length (filter (\<lambda>m. padded_quality iou scd gts dets m > 0) (lsa T)),
         FP = length (false_positive_matches iou scd gts dets (lsa T)),
         FN = length (filter (\<lambda>m. \<not> padded_quality iou scd gts dets m > 0 \<and> fst m < length gts) (lsa T)),
         state_change = sum_list (map (\<lambda>m. if padded_quality iou scd gts dets m = 0 then 0
                       else state_padded scd gts dets m) (lsa T))\<rparr>"
    by (rule calc_qual_map_closed[where lsa = lsa and T = T, OF v ne T is_assignment_list_all[OF a]])
qed

lemma mapM_np_max_butlast:
  assumes "list_all (\<lambda>det. 2 \<le> length (prob_dist det)) dets"
  shows "mapM (\<lambda>det. np_max (butlast (prob_dist det))) dets = Inr (map max_label_prob dets)"
proof (rule mapM_Inr)
  fix det assume "det \<in> set dets"
  then have "2 \<le> length (prob_dist det)" using assms by (simp add: list_all_iff)
  then have "butlast (prob_dist det) \<noteq> []"
    by (cases "prob_dist det" rule: rev_cases) auto
  then show "np_max (butlast (prob_dist det)) = Inr (max_label_prob det)"
    by (simp add: np_max_Max max_label_prob_def)
qed

subsection \<open>Bounds\<close>

lemma in_unit_padded_cost:
  assumes "\<And>r c. r < g \<Longrightarrow> c < d \<Longrightarrow> 0 \<le> q r c \<and> q r c \<le> 1"
  shows "in_unit_interval (padded_cost n g d q)" "in_unit_interval (one_minus (padded_cost n g d q))"
  using assms by (auto simp: in_unit_interval_def padded_cost_def one_minus_def list_all_iff)

lemma label_quality_le1:
  assumes "valid_gt C scd gt" "valid_det C scd det" "list_all (\<lambda>p. p \<le> 1) (prob_dist det)"
  shows "label_quality gt det \<le> 1"
  using assms by (auto simp: valid_gt_def valid_det_def label_quality_def list_all_length)

lemma state_quality_le1:
  assumes "valid_gt C True gt" "valid_det C True det"
    "case state_probs det of None \<Rightarrow> True | Some ps \<Rightarrow> list_all (\<lambda>p. p \<le> 1) ps"
  shows "state_quality gt det \<le> 1"
proof -
  have "nat (the (STATE_IDS (the (state gt)))) < 3"
    using valid_gt_state_range[OF assms(1)] by linarith
  then show ?thesis using assms(2,3)
    by (auto simp: valid_det_def state_quality_def list_all_length split: option.splits)
qed

lemma sqrt_unit: "0 \<le> a \<Longrightarrow> a \<le> 1 \<Longrightarrow> 0 \<le> b \<Longrightarrow> b \<le> 1 \<Longrightarrow> sqrt (a * b) \<le> 1"
proof -
  assume "0 \<le> a" "a \<le> 1" "0 \<le> b" "b \<le> 1"
  then have "a * b \<le> 1 * 1" by (intro mult_mono) auto
  then show ?thesis by simp
qed

lemma root3_unit:
  "0 \<le> a \<Longrightarrow> a \<le> 1 \<Longrightarrow> 0 \<le> b \<Longrightarrow> b \<le> 1 \<Longrightarrow> 0 \<le> c \<Longrightarrow> c \<le> 1 \<Longrightarrow> root 3 (a * b * c) \<le> 1"
proof -
  assume a: "0 \<le> a" "a \<le> 1" "0 \<le> b" "b \<le> 1" "0 \<le> c" "c \<le> 1"
  then have "a * b \<le> 1 * 1" by (intro mult_mono) auto
  then have "a * b * c \<le> 1 * 1" using a by (intro mult_mono) auto
  then have "root 3 (a * b * c) \<le> root 3 1" by (intro real_root_le_mono) auto
  then show ?thesis by simp
qed

subsection \<open>The accumulator\<close>

lemma score_loop_add_each: "score_loop lsa iou self L = add_each lsa iou self L"
proof (induction L arbitrary: self)
  case Nil
  then show ?case by simp
next
  case (Cons p L)
  obtain gt det where p: "p = (gt, det)" by (cases p)
  show ?case
    by (cases "calc_qual_map lsa iou gt det (scd_mode self)")
       (simp_all add: p get_map_evals_def add_map_eval_def Cons.IH)
qed

lemma add_map_eval_scd_mode:
  "add_map_eval lsa iou self gt det = Inr self' \<Longrightarrow> scd_mode self' = scd_mode self"
  by (auto simp: add_map_eval_def bind_eq_Inr)

lemma add_each_scd_mode:
  "add_each lsa iou self L = Inr self' \<Longrightarrow> scd_mode self' = scd_mode self"
proof (induction L arbitrary: self)
  case Nil
  then show ?case by simp
next
  case (Cons p L)
  obtain gt det where p: "p = (gt, det)" by (cases p)
  from Cons.prems obtain s where s: "add_map_eval lsa iou self gt det = Inr s"
    and r: "add_each lsa iou s L = Inr self'"
    by (auto simp: p bind_eq_Inr)
  show ?case using Cons.IH[OF r] add_map_eval_scd_mode[OF s] by simp
qed

lemma reset_eq: "scd_mode a = scd_mode b \<Longrightarrow> reset a = reset (b::cdq3d)"
  by (cases a; cases b) (simp add: reset_def)

lemma scd_mode_reset [simp]: "scd_mode (reset a) = scd_mode a"
  by (simp add: reset_def)

lemma gen_cost_tables_plain_state:
  assumes "gen_cost_tables iou gts dets False = Inr tables"
  shows "ct_state tables = np_ones (max (length gts) (length dets))"
    and "length (ct_overall tables) = max (length gts) (length dets)"
  using assms
  by (auto simp: gen_cost_tables_def bind_eq_Inr Let_def sub_block_def np_ones_def split: prod.splits)

lemma calc_qual_map_plain_state:
  assumes "calc_qual_map lsa iou gts dets False = Inr res"
  shows "state_change res = 0"
proof (cases "gts = [] \<or> dets = []")
  case True
  then show ?thesis using assms by (auto simp: calc_qual_map_def bind_eq_Inr split: if_splits)
next
  case False
  let ?n = "max (length gts) (length dets)"
  from assms False obtain tables where g: "gen_cost_tables iou gts dets False = Inr tables"
    by (auto simp: calc_qual_map_def bind_eq_Inr)
  note st = gen_cost_tables_plain_state[OF g]
  let ?ms = "lsa (ct_overall tables)"
  from assms False g have rng: "list_all (\<lambda>(r, c). r < ?n \<and> c < ?n) ?ms"
    by (auto simp: calc_qual_map_def Let_def st split: if_splits)
  have z: "sum_at (zero_where M (one_minus (np_ones ?n))) ?ms = 0" for M
  proof -
    have "sum_at (zero_where M (one_minus (np_ones ?n))) ?ms = sum_list (map (\<lambda>m. 0) ?ms)"
    proof (rule sum_at_cong)
      fix r c assume "(r, c) \<in> set ?ms"
      then have "r < ?n" "c < ?n" using rng by (auto simp: list_all_iff)
      then show "zero_where M (one_minus (np_ones ?n)) ! r ! c = 0"
        by (simp add: zero_where_def one_minus_def np_ones_def)
    qed
    then show ?thesis by simp
  qed
  from assms False g rng show ?thesis
    by (auto simp: calc_qual_map_def Let_def st z bind_eq_Inr split: prod.splits)
qed

lemma add_map_eval_plain_state:
  assumes "add_map_eval lsa iou self gt det = Inr self'" "scd_mode self = False"
  shows "tot_state_quality self' = tot_state_quality self \<and> scd_mode self' = False"
  using assms calc_qual_map_plain_state
  by (auto simp: add_map_eval_def bind_eq_Inr)

lemma add_each_plain_state:
  "add_each lsa iou self L = Inr self' \<Longrightarrow> scd_mode self = False \<Longrightarrow>
   tot_state_quality self' = tot_state_quality self \<and> scd_mode self' = False"
proof (induction L arbitrary: self)
  case Nil
  then show ?case by simp
next
  case (Cons p L)
  obtain gt det where p: "p = (gt, det)" by (cases p)
  from Cons.prems obtain s where s: "add_map_eval lsa iou self gt det = Inr s"
    and r: "add_each lsa iou s L = Inr self'"
    by (auto simp: p bind_eq_Inr)
  from add_map_eval_plain_state[OF s Cons.prems(2)] Cons.IH[OF r] show ?case by simp
qed

lemma score_plain_state:
  assumes "score lsa iou self L = Inr (self', v)" "scd_mode self = False"
  shows "tot_state_quality self' = 0 \<and> scd_mode self' = False"
proof -
  from assms(1) have "add_each lsa iou (reset self) L = Inr self'"
    by (auto simp: score_def score_loop_add_each bind_eq_Inr)
  from add_each_plain_state[OF this] assms(2) show ?thesis by (simp add: reset_def)
qed

lemma run_calls_plain_state:
  "run_calls lsa iou self calls = Inr self' \<Longrightarrow> scd_mode self = False \<Longrightarrow>
   tot_state_quality self = 0 \<Longrightarrow> tot_state_quality self' = 0 \<and> scd_mode self' = False"
proof (induction calls arbitrary: self)
  case Nil
  then show ?case by simp
next
  case (Cons c calls)
  show ?case
  proof (cases c)
    case (AddMapEval gt det)
    with Cons.prems obtain s where s: "add_map_eval lsa iou self gt det = Inr s"
      and r: "run_calls lsa iou s calls = Inr self'"
      by (auto simp: bind_eq_Inr)
    from add_map_eval_plain_state[OF s Cons.prems(2)] Cons.prems(3) Cons.IH[OF r]
    show ?thesis by simp
  next
    case (Score L)
    with Cons.prems obtain s v where s: "score lsa iou self L = Inr (s, v)"
      and r: "run_calls lsa iou s calls = Inr self'"
      by (auto simp: bind_eq_Inr)
    from score_plain_state[OF s Cons.prems(2)] Cons.IH[OF r] show ?thesis by simp
  qed
qed

lemma calc_qual_map_returns:
  assumes "valid_call C lsa iou scd (gts, dets)"
  shows "\<exists>res. calc_qual_map lsa iou gts dets scd = Inr res"
proof (cases "gts = [] \<or> dets = []")
  case True
  have "list_all (\<lambda>det. 2 \<le> length (prob_dist det)) dets"
    using assms by (auto simp: valid_call_def valid_map_def valid_det_def list_all_iff)
  then have "mapM (\<lambda>det. np_max (butlast (prob_dist det))) dets = Inr (map max_label_prob dets)"
    by (rule mapM_np_max_butlast)
  with True show ?thesis by (auto simp: calc_qual_map_def)
next
  case False
  with assms have v: "valid_map C iou scd gts dets" and ne: "gts \<noteq> []" "dets \<noteq> []"
    and s: "solver_assigns lsa iou gts dets scd"
    by (auto simp: valid_call_def)
  from closed_at_assignment(2)[OF v ne s refl] show ?thesis by blast
qed

lemma add_map_eval_returns:
  assumes "valid_call C lsa iou (scd_mode self) (gts, dets)"
  shows "\<exists>self'. add_map_eval lsa iou self gts dets = Inr self' \<and> scd_mode self' = scd_mode self"
  using calc_qual_map_returns[OF assms] by (auto simp: add_map_eval_def)

lemma add_each_returns:
  "list_all (valid_call C lsa iou (scd_mode self)) L \<Longrightarrow>
   \<exists>self'. add_each lsa iou self L = Inr self' \<and> scd_mode self' = scd_mode self"
proof (induction L arbitrary: self)
  case Nil
  then show ?case by simp
next
  case (Cons p L)
  obtain gts dets where p: "p = (gts, dets)" by (cases p)
  from Cons.prems p obtain s where s: "add_map_eval lsa iou self gts dets = Inr s"
    "scd_mode s = scd_mode self"
    using add_map_eval_returns[of C lsa iou self gts dets] by auto
  with Cons.prems Cons.IH[of s] show ?case by (auto simp: p)
qed

lemma get_current_score_returns: "\<exists>v. get_current_score self = Inr v"
  by (simp add: get_current_score_def truediv_def Let_def)

lemma score_returns:
  assumes "list_all (valid_call C lsa iou (scd_mode self)) L"
  shows "\<exists>self' v. score lsa iou self L = Inr (self', v) \<and> scd_mode self' = scd_mode self"
proof -
  from add_each_returns[of C lsa iou "reset self" L] assms
  obtain s where s: "add_each lsa iou (reset self) L = Inr s" "scd_mode s = scd_mode self"
    by auto
  obtain v where "get_current_score s = Inr v" using get_current_score_returns by blast
  with s show ?thesis by (simp add: score_def score_loop_add_each)
qed

lemma run_calls_returns:
  "valid_calls C lsa iou (scd_mode self) calls \<Longrightarrow> \<exists>self'. run_calls lsa iou self calls = Inr self'"
proof (induction calls arbitrary: self)
  case Nil
  then show ?case by simp
next
  case (Cons c calls)
  show ?case
  proof (cases c)
    case (AddMapEval gts dets)
    with Cons.prems obtain s where "add_map_eval lsa iou self gts dets = Inr s"
      "scd_mode s = scd_mode self"
      using add_map_eval_returns[of C lsa iou self gts dets] by auto
    with Cons.prems Cons.IH[of s] AddMapEval show ?thesis by auto
  next
    case (Score L)
    with Cons.prems obtain s v where "score lsa iou self L = Inr (s, v)"
      "scd_mode s = scd_mode self"
      using score_returns[of C lsa iou self L] by auto
    with Cons.prems Cons.IH[of s] Score show ?thesis by auto
  qed
qed

subsection \<open>The concrete maps, evaluated\<close>

lemmas ex_defs = unit_box_def far_box_def same_box_iou_def gt_at_def det_at_def
  scenario_D_gts_def scenario_D_dets_def cross_solver_def

lemma gmean_simps:
  "gmean [1, 1] = 1" "gmean [0, x] = 0" "gmean [x, 0] = 0"
  "gmean [1, 1, 1] = 1" "gmean [0, x, y] = 0" "gmean [x, 0, y] = 0" "gmean [x, y, 0] = 0"
  by (simp_all add: gmean_def)

lemma ex_tables:
  "gen_cost_tables same_box_iou scenario_D_gts scenario_D_dets False =
     Inr \<lparr>ct_overall = [[1, 0], [0, 1]], ct_spatial = [[1, 0], [0, 1]],
          ct_label = [[1, 0], [0, 1]], ct_state = [[1, 1], [1, 1]]\<rparr>"
  by (simp add: ex_defs gen_cost_tables_def vectorize_map_gts_def vectorize_map_dets_def
      np_stack_def calc_label_qual_def py_index_def calc_spatial_qual_def box_of_def
      calc_state_change_qual_def calc_overall_qual_def gmean_simps sub_block_def np_ones_def
      Let_def)

lemma ex_result:
  "calc_qual_map cross_solver same_box_iou scenario_D_gts scenario_D_dets False =
     Inr \<lparr>overall = 2, spatial = 2, label = 2, fp_cost = 0, TP = 2, FP = 0, FN = 0, state_change = 0\<rparr>"
  by (simp add: calc_qual_map_def ex_tables)
     (simp add: ex_defs one_minus_def classify_match_def sum_at_def zero_where_def Let_def)

lemmas ex_defs2 = ex_defs identity_solver_def missed_dets_def
  scenario_C_dets_def scenario_E_gts_def scenario_E_dets_def

lemmas eval_defs = gen_cost_tables_def vectorize_map_gts_def vectorize_map_dets_def
  np_stack_def calc_label_qual_def py_index_def calc_spatial_qual_def box_of_def
  calc_state_change_qual_def calc_overall_qual_def gmean_simps sub_block_def np_ones_def
  gt_state_id_def det_state_probs_def STATE_IDS_def Let_def

lemmas valid_defs = valid_map_def valid_gt_def valid_det_def box_of_def STATE_IDS_def

lemma scenario_D_valid: "valid_map 2 same_box_iou scd scenario_D_gts scenario_D_dets"
  by (simp add: ex_defs2 valid_defs)

lemma scenario_D_tables_scd:
  "gen_cost_tables same_box_iou scenario_D_gts scenario_D_dets True =
     Inr \<lparr>ct_overall = [[1, 0], [0, 1]], ct_spatial = [[1, 0], [0, 1]],
          ct_label = [[1, 0], [0, 1]], ct_state = [[1, 0], [0, 1]]\<rparr>"
  by (simp add: ex_defs2 eval_defs)

lemma missed_valid: "valid_map 2 same_box_iou scd scenario_D_gts missed_dets"
  by (simp add: ex_defs2 valid_defs)

lemma missed_tables:
  "gen_cost_tables same_box_iou scenario_D_gts missed_dets False =
     Inr \<lparr>ct_overall = [[1, 1], [0, 1]], ct_spatial = [[1, 1], [0, 1]],
          ct_label = [[1, 1], [0, 1]], ct_state = [[1, 1], [1, 1]]\<rparr>"
  by (simp add: ex_defs2 eval_defs)

lemma scenario_E_valid: "valid_map 2 same_box_iou True scenario_E_gts scenario_E_dets"
  by (simp add: ex_defs2 valid_defs)

lemma scenario_E_tables:
  "gen_cost_tables same_box_iou scenario_E_gts scenario_E_dets True =
     Inr \<lparr>ct_overall = [[1 - gmean [1, 1, 9 / 10]]], ct_spatial = [[0]],
          ct_label = [[0]], ct_state = [[1 / 10]]\<rparr>"
  by (simp add: ex_defs2 eval_defs)

lemma scenario_D_ne: "scenario_D_gts \<noteq> []" "scenario_D_dets \<noteq> []"
  by (simp_all add: scenario_D_gts_def scenario_D_dets_def)

lemma identity_assigns_D:
  "solver_assigns identity_solver same_box_iou scenario_D_gts scenario_D_dets scd"
proof (cases scd)
  case True
  then show ?thesis
    by (simp add: solver_assigns_def scenario_D_tables_scd is_assignment_def identity_solver_def) auto
next
  case False
  then show ?thesis
    by (simp add: solver_assigns_def ex_tables is_assignment_def identity_solver_def) auto
qed

lemma score_D:
  "scd_mode self = False \<Longrightarrow>
   score cross_solver same_box_iou self [(scenario_D_gts, scenario_D_dets)] =
     Inr (\<lparr>tot_overall_quality = 2, tot_spatial_quality = 2, tot_label_quality = 2,
        tot_fp_cost = 0, tot_TP = 2, tot_FP = 0, tot_FN = 0, tot_state_quality = 0,
        scd_mode = False\<rparr>, 1)"
  by (cases self) (simp add: score_def reset_def get_map_evals_def ex_result get_current_score_def truediv_def)

lemmas overlap_defs = unit_box_def near_box_def side_box_def overlap_iou_def gt_at_def det_at_def
  overlap_gts_def overlap_dets_def

lemma sqrt_25_81: "sqrt (25 / 81) = 5 / 9"
  by (rule real_sqrt_unique) (simp_all add: power2_eq_square)

lemma gmean_25_81: "gmean [1, 25 / 81] = 5 / 9"
  by (simp add: gmean2 sqrt_25_81)

lemma overlap_valid: "valid_map 2 overlap_iou False overlap_gts overlap_dets"
  by (simp add: overlap_defs valid_defs)

lemma overlap_tables:
  "gen_cost_tables overlap_iou overlap_gts overlap_dets False =
     Inr \<lparr>ct_overall = [[0, 4 / 9], [4 / 9, 1]], ct_spatial = [[0, 56 / 81], [56 / 81, 1]],
          ct_label = [[0, 0], [0, 0]], ct_state = [[1, 1], [1, 1]]\<rparr>"
  by (simp add: overlap_defs eval_defs gmean_25_81)

lemma cross_optimal_overlap:
  "optimal_assignment [[0, 4 / 9], [4 / 9, 1]] [(0, 1), (1, 0)]"
  unfolding optimal_assignment_def
proof (intro conjI allI impI)
  have l: "length [[0::real, 4 / 9], [4 / 9, 1]] = 2" by simp
  show "is_assignment (length [[0::real, 4 / 9], [4 / 9, 1]]) [(0, 1), (1, 0)]"
    unfolding l by (rule cross_assignment)
  fix other assume "is_assignment (length [[0::real, 4 / 9], [4 / 9, 1]]) other"
  then have "is_assignment 2 other" unfolding l .
  from is_assignment_2_cases[OF this]
  show "sum_at [[0, 4 / 9], [4 / 9, 1]] [(0, 1), (1, 0)] \<le> sum_at [[0, 4 / 9], [4 / 9, 1]] other"
    by (auto simp: sum_at_def)
qed

section \<open>Properties\<close>

text \<open>
  C1: for a valid map with at least one ground truth and one detection, on whose overall
  cost table the solver returns an optimal assignment, the map evaluation returns, and its
  \<open>overall\<close> sum is the maximum, over all one-to-one matchings of the index range padded to
  \<open>max g d\<close> (a phantom counterpart has quality 0), of the sum of the pairwise overall
  qualities: it is the total of some matching, no matching has a larger total, and it is
  the \<open>Max\<close> of the totals. In particular, with two ground truths and two detections,
  when the cross pairing has a strictly larger total than the identity pairing, the cross
  pairing's total is scored.
\<close>

theorem overall_sum_is_best_matching:
  assumes v: "valid_map C iou scd gts dets" and ne: "gts \<noteq> []" "dets \<noteq> []"
    and opt: "solver_optimal lsa iou gts dets scd"
  shows "\<exists>res. calc_qual_map lsa iou gts dets scd = Inr res \<and>
     (\<exists>m. is_assignment (max (length gts) (length dets)) m \<and>
          overall res = matching_quality iou scd gts dets m) \<and>
     (\<forall>m. is_assignment (max (length gts) (length dets)) m \<longrightarrow>
          matching_quality iou scd gts dets m \<le> overall res) \<and>
     overall res = Max (matching_quality iou scd gts dets `
                          {m. is_assignment (max (length gts) (length dets)) m}) \<and>
     (length gts = 2 \<and> length dets = 2 \<and>
      matching_quality iou scd gts dets [(0, 0), (1, 1)]
        < matching_quality iou scd gts dets [(0, 1), (1, 0)] \<longrightarrow>
      overall res = matching_quality iou scd gts dets [(0, 1), (1, 0)])"
proof -
  let ?mq = "matching_quality iou scd gts dets"
  let ?n = "max (length gts) (length dets)"
  from calc_qual_map_overall_max[OF v ne opt] obtain res m where
    res: "calc_qual_map lsa iou gts dets scd = Inr res"
    and m: "is_assignment ?n m" "overall res = ?mq m"
    and best: "\<forall>m. is_assignment ?n m \<longrightarrow> ?mq m \<le> overall res"
    by blast
  have mx: "overall res = Max (?mq ` {m. is_assignment ?n m})"
    unfolding m(2) using m(1) best[unfolded m(2)] by (rule greatest_is_Max)
  have "overall res = ?mq [(0, 1), (1, 0)]"
    if two: "length gts = 2" "length dets = 2" and lt: "?mq [(0, 0), (1, 1)] < ?mq [(0, 1), (1, 0)]"
  proof -
    have m2: "is_assignment 2 m" using m(1) two by simp
    have "?mq [(0, 1), (1, 0)] \<le> overall res"
      using best cross_assignment two by simp
    moreover have "?mq m = ?mq [(0, 0), (1, 1)] \<or> ?mq m = ?mq [(0, 1), (1, 0)]"
      using is_assignment_2_cases[OF m2] by (auto simp: matching_quality_def)
    ultimately show ?thesis using lt m(2) by linarith
  qed
  with res m best mx show ?thesis by blast
qed

text \<open>The overlapping boxes: the identity pairing totals 1 (qualities 1 and 0), the cross
  pairing 10/9 (qualities 5/9 and 5/9), and 10/9 is scored.\<close>

theorem overall_sum_is_best_matching_witness:
  "valid_map 2 overlap_iou False overlap_gts overlap_dets \<and>
   solver_optimal cross_solver overlap_iou overlap_gts overlap_dets False \<and>
   matching_quality overlap_iou False overlap_gts overlap_dets [(0, 0), (1, 1)] = 1 \<and>
   matching_quality overlap_iou False overlap_gts overlap_dets [(0, 1), (1, 0)] = 10 / 9 \<and>
   (\<exists>res. calc_qual_map cross_solver overlap_iou overlap_gts overlap_dets False = Inr res \<and>
          overall res = 10 / 9)"
proof -
  have opt: "solver_optimal cross_solver overlap_iou overlap_gts overlap_dets False"
    by (simp only: solver_optimal_def overlap_tables sum.case cost_tables.simps cross_solver_def
        cross_optimal_overlap)
  have ne: "overlap_gts \<noteq> []" "overlap_dets \<noteq> []"
    by (simp_all add: overlap_gts_def overlap_dets_def)
  have len: "length overlap_gts = 2" "length overlap_dets = 2"
    by (simp_all add: overlap_gts_def overlap_dets_def)
  have i: "matching_quality overlap_iou False overlap_gts overlap_dets [(0, 0), (1, 1)] = 1"
    by (simp add: matching_quality_def padded_quality_def pair_quality_def label_quality_def
        spatial_quality_def overlap_defs box_of_def)
  have c: "matching_quality overlap_iou False overlap_gts overlap_dets [(0, 1), (1, 0)] = 10 / 9"
    by (simp add: matching_quality_def padded_quality_def pair_quality_def label_quality_def
        spatial_quality_def overlap_defs box_of_def sqrt_25_81)
  from overall_sum_is_best_matching[OF overlap_valid ne opt] i c len
  have "\<exists>res. calc_qual_map cross_solver overlap_iou overlap_gts overlap_dets False = Inr res \<and>
          overall res = 10 / 9"
    by auto
  with overlap_valid opt i c show ?thesis by blast
qed

text \<open>
  C2: for a valid map with at least one ground truth and one detection, on whose overall
  cost table the solver returns a one-to-one matching of the padded rows and columns, the
  counts of the map evaluation satisfy TP + FN = g and TP + FP = d.
\<close>

theorem tp_fn_fp_counts:
  assumes v: "valid_map C iou scd gts dets" and ne: "gts \<noteq> []" "dets \<noteq> []"
    and s: "solver_assigns lsa iou gts dets scd"
  shows "\<exists>res. calc_qual_map lsa iou gts dets scd = Inr res \<and>
           TP res + FN res = length gts \<and> TP res + FP res = length dets"
proof -
  define T where "T = padded_cost (max (length gts) (length dets)) (length gts) (length dets)
            (\<lambda>r c. pair_quality iou scd (gts ! r) (dets ! c))"
  note cf = closed_at_assignment[where lsa = lsa and T = T, OF v ne s T_def]
  let ?Q = "padded_quality iou scd gts dets"
  have pos: "fst m < length gts \<and> snd m < length dets" if "?Q m > 0" for m
    using that padded_pos[of "length gts" "length dets" _ "fst m" "snd m"]
    by (simp add: padded_quality_eq)
  have "length (filter (\<lambda>m. ?Q m > 0) (lsa T))
        + length (filter (\<lambda>m. \<not> ?Q m > 0 \<and> fst m < length gts) (lsa T))
      = length (filter (\<lambda>m. fst m < length gts) (lsa T))"
    by (rule length_filter_split) (simp add: pos)
  also have "\<dots> = length gts" by (rule count_rows[OF cf(1)]) simp
  finally have r: "length (filter (\<lambda>m. ?Q m > 0) (lsa T))
        + length (filter (\<lambda>m. \<not> ?Q m > 0 \<and> fst m < length gts) (lsa T)) = length gts" .
  have "length (filter (\<lambda>m. ?Q m > 0) (lsa T))
        + length (filter (\<lambda>m. \<not> ?Q m > 0 \<and> snd m < length dets) (lsa T))
      = length (filter (\<lambda>m. snd m < length dets) (lsa T))"
    by (rule length_filter_split) (simp add: pos)
  also have "\<dots> = length dets" by (rule count_cols[OF cf(1)]) simp
  finally have c: "length (filter (\<lambda>m. ?Q m > 0) (lsa T))
        + length (false_positive_matches iou scd gts dets (lsa T)) = length dets"
    by (simp add: false_positive_matches_def)
  show ?thesis unfolding cf(2) using r c by simp
qed

text \<open>Two ground truths and one detection: one true positive, one false negative.\<close>

theorem tp_fn_fp_counts_witness:
  "valid_map 2 same_box_iou False scenario_D_gts missed_dets \<and>
   solver_assigns cross_solver same_box_iou scenario_D_gts missed_dets False \<and>
   (\<exists>res. calc_qual_map cross_solver same_box_iou scenario_D_gts missed_dets False = Inr res \<and>
          TP res = 1 \<and> FN res = 1 \<and> FP res = 0 \<and> TP res + FN res = 2 \<and> TP res + FP res = 1)"
proof -
  have s: "solver_assigns cross_solver same_box_iou scenario_D_gts missed_dets False"
    by (simp add: solver_assigns_def missed_tables is_assignment_def cross_solver_def) auto
  have ne: "scenario_D_gts \<noteq> []" "missed_dets \<noteq> []"
    by (simp_all add: scenario_D_gts_def missed_dets_def)
  have r: "calc_qual_map cross_solver same_box_iou scenario_D_gts missed_dets False =
     Inr \<lparr>overall = 1, spatial = 1, label = 1, fp_cost = 0, TP = 1, FP = 0, FN = 1, state_change = 0\<rparr>"
    by (simp add: calc_qual_map_def missed_tables)
       (simp add: ex_defs2 one_minus_def classify_match_def sum_at_def zero_where_def Let_def)
  from tp_fn_fp_counts[OF missed_valid ne s] r missed_valid s show ?thesis
    by (simp add: scenario_D_gts_def missed_dets_def)
qed

text \<open>
  C3: for a valid map with at least one ground truth and one detection, every matched pair
  has an overall quality that is positive or zero; the true positives are the matched pairs
  of positive overall quality, the false negatives the pairs of quality zero whose row is a
  ground truth, and the false positives the pairs of quality zero whose column is a
  detection. A pair of quality zero with a real row and a real column is counted in both.
\<close>

theorem match_classification:
  assumes v: "valid_map C iou scd gts dets" and ne: "gts \<noteq> []" "dets \<noteq> []"
    and s: "solver_assigns lsa iou gts dets scd"
  shows "\<exists>tables res.
     gen_cost_tables iou gts dets scd = Inr tables \<and>
     calc_qual_map lsa iou gts dets scd = Inr res \<and>
     list_all (\<lambda>(r, c). one_minus (ct_overall tables) ! r ! c > 0
                       \<or> one_minus (ct_overall tables) ! r ! c = 0) (lsa (ct_overall tables)) \<and>
     TP res = length (filter (\<lambda>(r, c). one_minus (ct_overall tables) ! r ! c > 0)
                        (lsa (ct_overall tables))) \<and>
     FN res = length (filter (\<lambda>(r, c). one_minus (ct_overall tables) ! r ! c = 0 \<and> r < length gts)
                        (lsa (ct_overall tables))) \<and>
     FP res = length (filter (\<lambda>(r, c). one_minus (ct_overall tables) ! r ! c = 0 \<and> c < length dets)
                        (lsa (ct_overall tables)))"
proof -
  define T where "T = padded_cost (max (length gts) (length dets)) (length gts) (length dets)
            (\<lambda>r c. pair_quality iou scd (gts ! r) (dets ! c))"
  note cf = closed_at_assignment[where lsa = lsa and T = T, OF v ne s T_def]
  let ?Q = "padded_quality iou scd gts dets"
  have OQ: "one_minus T ! r ! c = ?Q (r, c)" if "(r, c) \<in> set (lsa T)" for r c
    using is_assignment_in_range[OF cf(1) that]
    by (simp add: T_def one_minus_padded_cost_nth padded_quality_eq)
  have nn: "\<not> ?Q m > 0 \<longleftrightarrow> ?Q m = 0" for m
    using padded_quality_nonneg[OF v, of m] by auto
  have f1: "filter (\<lambda>(r, c). one_minus T ! r ! c > 0) (lsa T) = filter (\<lambda>m. ?Q m > 0) (lsa T)"
    by (rule filter_cong_set) (auto simp: OQ)
  have f2: "filter (\<lambda>(r, c). one_minus T ! r ! c = 0 \<and> r < length gts) (lsa T)
      = filter (\<lambda>m. \<not> ?Q m > 0 \<and> fst m < length gts) (lsa T)"
    by (rule filter_cong_set) (auto simp: OQ nn)
  have f3: "filter (\<lambda>(r, c). one_minus T ! r ! c = 0 \<and> c < length dets) (lsa T)
      = false_positive_matches iou scd gts dets (lsa T)"
    unfolding false_positive_matches_def by (rule filter_cong_set) (auto simp: OQ nn)
  have a: "list_all (\<lambda>(r, c). one_minus T ! r ! c > 0 \<or> one_minus T ! r ! c = 0) (lsa T)"
  proof -
    have "one_minus T ! r ! c > 0 \<or> one_minus T ! r ! c = 0" if "(r, c) \<in> set (lsa T)" for r c
      using padded_quality_nonneg[OF v, of "(r, c)"] OQ[OF that] by linarith
    then show ?thesis by (auto simp: list_all_iff)
  qed
  have g: "gen_cost_tables iou gts dets scd = Inr \<lparr>ct_overall = T,
         ct_spatial = padded_cost (max (length gts) (length dets)) (length gts) (length dets)
            (\<lambda>r c. spatial_quality iou (gts ! r) (dets ! c)),
         ct_label = padded_cost (max (length gts) (length dets)) (length gts) (length dets)
            (\<lambda>r c. label_quality (gts ! r) (dets ! c)),
         ct_state = padded_cost (max (length gts) (length dets))
            (if scd then length gts else 0) (if scd then length dets else 0)
            (\<lambda>r c. state_quality (gts ! r) (dets ! c))\<rparr>"
    unfolding T_def by (rule gen_cost_tables_valid[OF v ne])
  show ?thesis unfolding g cf(2) using a by (simp add: f1 f2 f3)
qed

text \<open>The identity pairing on the two-by-two map: both pairs have quality zero, and each
  counts as a false negative and as a false positive.\<close>

theorem match_classification_witness:
  "valid_map 2 same_box_iou False scenario_D_gts scenario_D_dets \<and>
   solver_assigns identity_solver same_box_iou scenario_D_gts scenario_D_dets False \<and>
   (\<exists>res. calc_qual_map identity_solver same_box_iou scenario_D_gts scenario_D_dets False = Inr res \<and>
          TP res = 0 \<and> FN res = 2 \<and> FP res = 2)"
proof -
  from match_classification[OF scenario_D_valid scenario_D_ne identity_assigns_D, of False]
  obtain tables res where
    t: "gen_cost_tables same_box_iou scenario_D_gts scenario_D_dets False = Inr tables"
    and r: "calc_qual_map identity_solver same_box_iou scenario_D_gts scenario_D_dets False = Inr res"
    and c: "TP res = length (filter (\<lambda>(r, c). one_minus (ct_overall tables) ! r ! c > 0)
                        (identity_solver (ct_overall tables)))"
      "FN res = length (filter (\<lambda>(r, c). one_minus (ct_overall tables) ! r ! c = 0
                                  \<and> r < length scenario_D_gts) (identity_solver (ct_overall tables)))"
      "FP res = length (filter (\<lambda>(r, c). one_minus (ct_overall tables) ! r ! c = 0
                                  \<and> c < length scenario_D_dets) (identity_solver (ct_overall tables)))"
    by blast
  from t have tables: "tables = \<lparr>ct_overall = [[1, 0], [0, 1]], ct_spatial = [[1, 0], [0, 1]],
          ct_label = [[1, 0], [0, 1]], ct_state = [[1, 1], [1, 1]]\<rparr>"
    by (simp add: ex_tables)
  have "TP res = 0 \<and> FN res = 2 \<and> FP res = 2"
    unfolding c tables
    by (simp add: identity_solver_def one_minus_def scenario_D_gts_def scenario_D_dets_def)
  with r scenario_D_valid identity_assigns_D show ?thesis by blast
qed

text \<open>
  C4: for a map with no ground truth or no detection (every detection having at least one
  class besides the background), the map evaluation returns without consulting the solver,
  in either mode: all four quality sums are 0, TP is 0, FP is d, FN is g, and the false
  positive cost is the sum over all detections of the maximum label probability excluding
  the final class.
\<close>

theorem empty_map_result:
  assumes "gts = [] \<or> dets = []" and "list_all (\<lambda>det. 2 \<le> length (prob_dist det)) dets"
  shows "calc_qual_map lsa iou gts dets scd =
     Inr \<lparr>overall = 0, spatial = 0, label = 0, fp_cost = sum_list (map max_label_prob dets),
          TP = 0, FP = length dets, FN = length gts, state_change = 0\<rparr>"
  using assms(1) by (auto simp: calc_qual_map_def mapM_np_max_butlast[OF assms(2)])

text \<open>No ground truth and one detection whose top non-background probability is 0.7, in
  scene-change mode.\<close>

theorem empty_map_result_witness:
  "calc_qual_map cross_solver same_box_iou [] scenario_C_dets True =
     Inr \<lparr>overall = 0, spatial = 0, label = 0, fp_cost = 7 / 10,
          TP = 0, FP = 1, FN = 0, state_change = 0\<rparr>"
proof -
  have h: "list_all (\<lambda>det. 2 \<le> length (prob_dist det)) scenario_C_dets"
    by (simp add: scenario_C_dets_def det_at_def)
  have m: "sum_list (map max_label_prob scenario_C_dets) = 7 / 10"
    by (simp add: scenario_C_dets_def det_at_def max_label_prob_def)
  from empty_map_result[of "[]" scenario_C_dets cross_solver same_box_iou True, OF _ h] m
  show ?thesis by (simp add: scenario_C_dets_def)
qed

text \<open>
  C5: for every ground-truth/detection pair of a valid non-empty map the tables are built
  without error, and the overall quality is the geometric mean of the components: the
  square root of label times spatial quality when scene-change mode is off, the cube root of
  label times spatial times state quality when it is on. When a component is exactly 0 the
  overall quality is 0.
\<close>

theorem overall_quality_is_geometric_mean:
  assumes v: "valid_map C iou scd gts dets" and ne: "gts \<noteq> []" "dets \<noteq> []"
    and rc: "r < length gts" "c < length dets"
  shows "\<exists>tables. gen_cost_tables iou gts dets scd = Inr tables \<and>
     one_minus (ct_overall tables) ! r ! c =
       (if scd
        then root 3 (one_minus (ct_label tables) ! r ! c * one_minus (ct_spatial tables) ! r ! c
                     * one_minus (ct_state tables) ! r ! c)
        else sqrt (one_minus (ct_label tables) ! r ! c * one_minus (ct_spatial tables) ! r ! c)) \<and>
     (one_minus (ct_label tables) ! r ! c = 0 \<or> one_minus (ct_spatial tables) ! r ! c = 0
        \<or> scd \<and> one_minus (ct_state tables) ! r ! c = 0
      \<longrightarrow> one_minus (ct_overall tables) ! r ! c = 0)"
proof -
  have n: "r < max (length gts) (length dets)" "c < max (length gts) (length dets)"
    using rc by auto
  show ?thesis
    unfolding gen_cost_tables_valid[OF v ne]
    using rc by (auto simp: one_minus_padded_cost_nth[OF n] padded_def pair_quality_def)
qed

text \<open>Ground truth state added, state probabilities 0.9, 0.05, 0.05, label and overlap 1:
  the overall quality is the cube root of 0.9.\<close>

theorem overall_quality_is_geometric_mean_witness:
  "valid_map 2 same_box_iou True scenario_E_gts scenario_E_dets \<and>
   (\<exists>tables. gen_cost_tables same_box_iou scenario_E_gts scenario_E_dets True = Inr tables \<and>
      one_minus (ct_state tables) ! 0 ! 0 = 9 / 10 \<and>
      one_minus (ct_overall tables) ! 0 ! 0 = root 3 (9 / 10))"
proof -
  have ne: "scenario_E_gts \<noteq> []" "scenario_E_dets \<noteq> []"
    and len: "0 < length scenario_E_gts" "0 < length scenario_E_dets"
    by (simp_all add: scenario_E_gts_def scenario_E_dets_def)
  from overall_quality_is_geometric_mean[OF scenario_E_valid ne len]
  obtain tables where
    t: "gen_cost_tables same_box_iou scenario_E_gts scenario_E_dets True = Inr tables"
    and q: "one_minus (ct_overall tables) ! 0 ! 0 =
       root 3 (one_minus (ct_label tables) ! 0 ! 0 * one_minus (ct_spatial tables) ! 0 ! 0
                     * one_minus (ct_state tables) ! 0 ! 0)"
    by auto
  from t have tables: "ct_label tables = [[0]]" "ct_spatial tables = [[0]]"
      "ct_state tables = [[1 / 10]]"
    by (auto simp: scenario_E_tables)
  have "one_minus (ct_state tables) ! 0 ! 0 = 9 / 10"
    "one_minus (ct_overall tables) ! 0 ! 0 = root 3 (9 / 10)"
    unfolding q tables by (simp_all add: one_minus_def)
  with t scenario_E_valid show ?thesis by blast
qed

text \<open>
  C6: for a valid non-empty map the false positive cost sum is the sum, over the matched
  pairs whose detection is a false positive, of the maximum non-background label probability
  of the detection, combined in scene-change mode by the geometric mean with its maximum
  state probability excluding the state constant.
\<close>

theorem false_positive_cost_sum:
  assumes v: "valid_map C iou scd gts dets" and ne: "gts \<noteq> []" "dets \<noteq> []"
    and s: "solver_assigns lsa iou gts dets scd"
  shows "\<exists>tables res.
     gen_cost_tables iou gts dets scd = Inr tables \<and>
     calc_qual_map lsa iou gts dets scd = Inr res \<and>
     FP res = length (filter (\<lambda>(r, c). one_minus (ct_overall tables) ! r ! c = 0 \<and> c < length dets)
                        (lsa (ct_overall tables))) \<and>
     fp_cost res =
       sum_list (map (\<lambda>(r, c). if scd then sqrt (max_label_prob (dets ! c) * max_state_prob (dets ! c))
                               else max_label_prob (dets ! c))
         (filter (\<lambda>(r, c). one_minus (ct_overall tables) ! r ! c = 0 \<and> c < length dets)
            (lsa (ct_overall tables))))"
proof -
  define T where "T = padded_cost (max (length gts) (length dets)) (length gts) (length dets)
            (\<lambda>r c. pair_quality iou scd (gts ! r) (dets ! c))"
  note cf = closed_at_assignment[where lsa = lsa and T = T, OF v ne s T_def]
  let ?Q = "padded_quality iou scd gts dets"
  have OQ: "one_minus T ! r ! c = ?Q (r, c)" if "(r, c) \<in> set (lsa T)" for r c
    using is_assignment_in_range[OF cf(1) that]
    by (simp add: T_def one_minus_padded_cost_nth padded_quality_eq)
  have nn: "\<not> ?Q m > 0 \<longleftrightarrow> ?Q m = 0" for m
    using padded_quality_nonneg[OF v, of m] by auto
  have f3: "filter (\<lambda>(r, c). one_minus T ! r ! c = 0 \<and> c < length dets) (lsa T)
      = false_positive_matches iou scd gts dets (lsa T)"
    unfolding false_positive_matches_def by (rule filter_cong_set) (auto simp: OQ nn)
  have g: "gen_cost_tables iou gts dets scd = Inr \<lparr>ct_overall = T,
         ct_spatial = padded_cost (max (length gts) (length dets)) (length gts) (length dets)
            (\<lambda>r c. spatial_quality iou (gts ! r) (dets ! c)),
         ct_label = padded_cost (max (length gts) (length dets)) (length gts) (length dets)
            (\<lambda>r c. label_quality (gts ! r) (dets ! c)),
         ct_state = padded_cost (max (length gts) (length dets))
            (if scd then length gts else 0) (if scd then length dets else 0)
            (\<lambda>r c. state_quality (gts ! r) (dets ! c))\<rparr>"
    unfolding T_def by (rule gen_cost_tables_valid[OF v ne])
  have e: "(\<lambda>(r, c). if scd then sqrt (max_label_prob (dets ! c) * max_state_prob (dets ! c))
                               else max_label_prob (dets ! c)) = (\<lambda>m. fp_cost_spec scd (dets ! snd m))"
    by (auto simp: fp_cost_spec_def)
  show ?thesis unfolding g cf(2) by (simp add: f3 e split del: if_split)
qed

text \<open>The identity pairing on the two-by-two map in scene-change mode: two false
  positives of cost 1 each.\<close>

theorem false_positive_cost_sum_witness:
  "valid_map 2 same_box_iou True scenario_D_gts scenario_D_dets \<and>
   solver_assigns identity_solver same_box_iou scenario_D_gts scenario_D_dets True \<and>
   (\<exists>res. calc_qual_map identity_solver same_box_iou scenario_D_gts scenario_D_dets True = Inr res \<and>
          FP res = 2 \<and> fp_cost res = 2)"
proof -
  from false_positive_cost_sum[OF scenario_D_valid scenario_D_ne identity_assigns_D, of True]
  obtain tables res where
    t: "gen_cost_tables same_box_iou scenario_D_gts scenario_D_dets True = Inr tables"
    and r: "calc_qual_map identity_solver same_box_iou scenario_D_gts scenario_D_dets True = Inr res"
    and c: "FP res = length (filter (\<lambda>(r, c). one_minus (ct_overall tables) ! r ! c = 0
                                  \<and> c < length scenario_D_dets) (identity_solver (ct_overall tables)))"
      "fp_cost res = sum_list (map (\<lambda>(r, c). if True
            then sqrt (max_label_prob (scenario_D_dets ! c) * max_state_prob (scenario_D_dets ! c))
            else max_label_prob (scenario_D_dets ! c))
         (filter (\<lambda>(r, c). one_minus (ct_overall tables) ! r ! c = 0 \<and> c < length scenario_D_dets)
            (identity_solver (ct_overall tables))))"
    by blast
  from t have tables: "ct_overall tables = [[1, 0], [0, 1]]"
    by (auto simp: scenario_D_tables_scd)
  have "FP res = 2 \<and> fp_cost res = 2"
    unfolding c tables
    by (simp add: identity_solver_def one_minus_def scenario_D_dets_def det_at_def
        max_label_prob_def max_state_prob_def)
  with r scenario_D_valid identity_assigns_D show ?thesis by blast
qed

text \<open>
  C7: for every accumulator state no score getter divides by zero. \<open>get_current_score\<close>
  returns the overall sum over TP + FP cost + FN, and 0 when that denominator is 0, so 0
  for a new accumulator; each average getter returns its running sum over TP, and 0 when
  TP is 0; \<open>get_avg_fp_score\<close> returns (FP - FP cost) / FP, and 1 when FP is 0.
\<close>

theorem getters_never_divide_by_zero:
  "get_current_score self =
     Inr (if real (tot_TP self) + tot_fp_cost self + real (tot_FN self) = 0 then 0
          else tot_overall_quality self /
               (real (tot_TP self) + tot_fp_cost self + real (tot_FN self)))
   \<and> get_current_score (init scd) = Inr 0
   \<and> get_avg_spatial_score self =
       Inr (if tot_TP self = 0 then 0 else tot_spatial_quality self / real (tot_TP self))
   \<and> get_avg_label_score self =
       Inr (if tot_TP self = 0 then 0 else tot_label_quality self / real (tot_TP self))
   \<and> get_avg_state_score self =
       Inr (if tot_TP self = 0 then 0 else tot_state_quality self / real (tot_TP self))
   \<and> get_avg_overall_quality_score self =
       Inr (if tot_TP self = 0 then 0 else tot_overall_quality self / real (tot_TP self))
   \<and> get_avg_fp_score self =
       Inr (if tot_FP self = 0 then 1
            else (real (tot_FP self) - tot_fp_cost self) / real (tot_FP self))"
  by (simp add: get_current_score_def get_avg_spatial_score_def get_avg_label_score_def
      get_avg_state_score_def get_avg_overall_quality_score_def get_avg_fp_score_def
      truediv_def init_def Let_def)

text \<open>
  C8: for every map list and prior accumulator, \<open>score\<close> gives the same accumulator and
  value (or the same exception) as \<open>reset\<close>, then \<open>add_map_eval\<close> for each pair in
  order, then \<open>get_current_score\<close>; so a second \<open>score\<close> on the accumulator the first
  one left gives the identical result.
\<close>

theorem score_is_reset_then_add_each:
  "score lsa iou self L = reset_add_each_then_score lsa iou self L \<and>
   (\<forall>self' v. score lsa iou self L = Inr (self', v) \<longrightarrow> score lsa iou self' L = Inr (self', v))"
proof -
  have eq: "score lsa iou a L = reset_add_each_then_score lsa iou a L" for a
    by (simp add: score_def reset_add_each_then_score_def score_loop_add_each)
  have "score lsa iou self' L = Inr (self', v)" if h: "score lsa iou self L = Inr (self', v)" for self' v
  proof -
    from h have "add_each lsa iou (reset self) L = Inr self'"
      by (auto simp: eq reset_add_each_then_score_def bind_eq_Inr)
    then have "scd_mode self' = scd_mode self" using add_each_scd_mode by fastforce
    then have "reset self' = reset self" by (rule reset_eq)
    then show ?thesis using h by (simp add: score_def)
  qed
  with eq show ?thesis by blast
qed

text \<open>Scoring the two-by-two map twice in succession.\<close>

theorem score_is_reset_then_add_each_witness:
  "\<exists>self' v. score cross_solver same_box_iou (init False) [(scenario_D_gts, scenario_D_dets)]
       = Inr (self', v) \<and> v = 1 \<and> tot_TP self' = 2 \<and>
     score cross_solver same_box_iou self' [(scenario_D_gts, scenario_D_dets)] = Inr (self', v) \<and>
     reset_add_each_then_score cross_solver same_box_iou (init False)
       [(scenario_D_gts, scenario_D_dets)] = Inr (self', v)"
proof -
  let ?L = "[(scenario_D_gts, scenario_D_dets)]"
  let ?s = "\<lparr>tot_overall_quality = 2, tot_spatial_quality = 2, tot_label_quality = 2,
        tot_fp_cost = 0, tot_TP = 2, tot_FP = 0, tot_FN = 0, tot_state_quality = 0,
        scd_mode = False\<rparr>"
  have e: "score cross_solver same_box_iou (init False) ?L = Inr (?s, 1)"
    by (rule score_D) (simp add: init_def)
  from score_is_reset_then_add_each[of cross_solver same_box_iou "init False" ?L] e
  have "score cross_solver same_box_iou ?s ?L = Inr (?s, 1)"
    and "reset_add_each_then_score cross_solver same_box_iou (init False) ?L = Inr (?s, 1)"
    by auto
  with e show ?thesis by simp
qed

text \<open>
  C9: for a valid non-empty map whose probabilities and overlaps are at most 1, the tables
  are built without error, and every entry of the spatial, label, state and overall quality
  tables and of the four cost tables lies in the unit interval.
\<close>

theorem quality_and_cost_in_unit_interval:
  assumes v: "valid_map C iou scd gts dets" and b: "bounded_map iou scd gts dets"
    and ne: "gts \<noteq> []" "dets \<noteq> []"
  shows "\<exists>tables. gen_cost_tables iou gts dets scd = Inr tables \<and>
     in_unit_interval (one_minus (ct_spatial tables)) \<and>
     in_unit_interval (one_minus (ct_label tables)) \<and>
     in_unit_interval (one_minus (ct_state tables)) \<and>
     in_unit_interval (one_minus (ct_overall tables)) \<and>
     in_unit_interval (ct_spatial tables) \<and> in_unit_interval (ct_label tables) \<and>
     in_unit_interval (ct_state tables) \<and> in_unit_interval (ct_overall tables)"
proof -
  let ?g = "length gts" and ?d = "length dets"
  have sp: "0 \<le> spatial_quality iou (gts ! r) (dets ! c) \<and> spatial_quality iou (gts ! r) (dets ! c) \<le> 1"
    if "r < ?g" "c < ?d" for r c
    using valid_map_nth(3)[OF v that] b that
    by (simp add: bounded_map_def list_all_length spatial_quality_def)
  have lb: "0 \<le> label_quality (gts ! r) (dets ! c) \<and> label_quality (gts ! r) (dets ! c) \<le> 1"
    if "r < ?g" "c < ?d" for r c
    using valid_map_nth(1,2)[OF v that] b that
    by (auto simp: bounded_map_def list_all_length intro: label_quality_nonneg label_quality_le1)
  have st: "0 \<le> state_quality (gts ! r) (dets ! c) \<and> state_quality (gts ! r) (dets ! c) \<le> 1"
    if "r < (if scd then ?g else 0)" "c < (if scd then ?d else 0)" for r c
  proof -
    from that have scd: scd and rc: "r < ?g" "c < ?d" by (auto split: if_splits)
    show ?thesis using valid_map_nth(1,2)[OF v rc] b rc scd
      by (auto simp: bounded_map_def list_all_length intro: state_quality_nonneg state_quality_le1)
  qed
  have ov: "0 \<le> pair_quality iou scd (gts ! r) (dets ! c) \<and> pair_quality iou scd (gts ! r) (dets ! c) \<le> 1"
    if rc: "r < ?g" "c < ?d" for r c
  proof (cases scd)
    case True
    have t: "0 \<le> state_quality (gts ! r) (dets ! c) \<and> state_quality (gts ! r) (dets ! c) \<le> 1"
      using st[of r c] rc True by simp
    have "root 3 (label_quality (gts ! r) (dets ! c) * spatial_quality iou (gts ! r) (dets ! c)
            * state_quality (gts ! r) (dets ! c)) \<le> 1"
      using sp[OF rc] lb[OF rc] t by (intro root3_unit) auto
    moreover have "0 \<le> root 3 (label_quality (gts ! r) (dets ! c) * spatial_quality iou (gts ! r) (dets ! c)
            * state_quality (gts ! r) (dets ! c))"
      using sp[OF rc] lb[OF rc] t by simp
    ultimately show ?thesis using True by (simp only: pair_quality_def if_True)
  next
    case False
    have "sqrt (label_quality (gts ! r) (dets ! c) * spatial_quality iou (gts ! r) (dets ! c)) \<le> 1"
      using sp[OF rc] lb[OF rc] by (intro sqrt_unit) auto
    moreover have "0 \<le> sqrt (label_quality (gts ! r) (dets ! c) * spatial_quality iou (gts ! r) (dets ! c))"
      using sp[OF rc] lb[OF rc] by simp
    ultimately show ?thesis using False by (simp only: pair_quality_def if_False)
  qed
  show ?thesis
    unfolding gen_cost_tables_valid[OF v ne]
    by (simp add: in_unit_padded_cost sp lb st ov del: One_nat_def split del: if_split)
qed

text \<open>The scene-change pair above.\<close>

theorem quality_and_cost_in_unit_interval_witness:
  "valid_map 2 same_box_iou True scenario_E_gts scenario_E_dets \<and>
   bounded_map same_box_iou True scenario_E_gts scenario_E_dets \<and>
   (\<exists>tables. gen_cost_tables same_box_iou scenario_E_gts scenario_E_dets True = Inr tables \<and>
     ct_state tables = [[1 / 10]] \<and>
     in_unit_interval (one_minus (ct_overall tables)) \<and> in_unit_interval (ct_overall tables))"
proof -
  have b: "bounded_map same_box_iou True scenario_E_gts scenario_E_dets"
    by (simp add: bounded_map_def ex_defs2 box_of_def)
  have ne: "scenario_E_gts \<noteq> []" "scenario_E_dets \<noteq> []"
    by (simp_all add: scenario_E_gts_def scenario_E_dets_def)
  from quality_and_cost_in_unit_interval[OF scenario_E_valid b ne] scenario_E_tables
  have "\<exists>tables. gen_cost_tables same_box_iou scenario_E_gts scenario_E_dets True = Inr tables \<and>
     ct_state tables = [[1 / 10]] \<and>
     in_unit_interval (one_minus (ct_overall tables)) \<and> in_unit_interval (ct_overall tables)"
    by auto
  with scenario_E_valid b show ?thesis by blast
qed

text \<open>
  C10: with scene-change mode off, every map evaluation that returns has a
  \<open>state_change\<close> sum of exactly 0; so after any sequence of \<open>add_map_eval\<close> and
  \<open>score\<close> calls on a new accumulator the state total is 0 and
  \<open>get_avg_state_score\<close> returns 0, whatever the number of true positives. A
  sequence of calls on valid maps does return.
\<close>

theorem state_score_zero_without_scene_change:
  "(\<forall>res. calc_qual_map lsa iou gts dets False = Inr res \<longrightarrow> state_change res = 0) \<and>
   (\<forall>self. run_calls lsa iou (init False) calls = Inr self \<longrightarrow>
      tot_state_quality self = 0 \<and> get_avg_state_score self = Inr 0) \<and>
   (valid_calls C lsa iou False calls \<longrightarrow>
      (\<exists>self. run_calls lsa iou (init False) calls = Inr self \<and>
         get_avg_state_score self = Inr 0))"
proof -
  have z: "tot_state_quality self = 0 \<and> get_avg_state_score self = Inr 0"
    if "run_calls lsa iou (init False) calls = Inr self" for self
    using run_calls_plain_state[OF that] by (simp add: init_def get_avg_state_score_def truediv_def)
  have "\<exists>self. run_calls lsa iou (init False) calls = Inr self \<and> get_avg_state_score self = Inr 0"
    if "valid_calls C lsa iou False calls"
  proof -
    have "valid_calls C lsa iou (scd_mode (init False)) calls" using that by (simp add: init_def)
    from run_calls_returns[OF this] z show ?thesis by blast
  qed
  with z show ?thesis using calc_qual_map_plain_state by blast
qed

text \<open>Three calls that leave four true positives.\<close>

theorem state_score_zero_without_scene_change_witness:
  "valid_calls 2 cross_solver same_box_iou False
       [AddMapEval scenario_D_gts scenario_D_dets, Score [(scenario_D_gts, scenario_D_dets)],
        AddMapEval scenario_D_gts scenario_D_dets] \<and>
   (\<exists>self. run_calls cross_solver same_box_iou (init False)
       [AddMapEval scenario_D_gts scenario_D_dets, Score [(scenario_D_gts, scenario_D_dets)],
        AddMapEval scenario_D_gts scenario_D_dets] = Inr self \<and>
     tot_TP self = 4 \<and> get_avg_state_score self = Inr 0)"
proof -
  let ?calls = "[AddMapEval scenario_D_gts scenario_D_dets, Score [(scenario_D_gts, scenario_D_dets)],
        AddMapEval scenario_D_gts scenario_D_dets]"
  have s: "solver_assigns cross_solver same_box_iou scenario_D_gts scenario_D_dets False"
    by (simp add: solver_assigns_def ex_tables is_assignment_def cross_solver_def) auto
  have v: "valid_calls 2 cross_solver same_box_iou False ?calls"
    by (simp add: valid_call_def scenario_D_valid s)
  have e: "run_calls cross_solver same_box_iou (init False) ?calls =
     Inr \<lparr>tot_overall_quality = 4, tot_spatial_quality = 4, tot_label_quality = 4,
        tot_fp_cost = 0, tot_TP = 4, tot_FP = 0, tot_FN = 0, tot_state_quality = 0,
        scd_mode = False\<rparr>"
    by (simp add: init_def add_map_eval_def ex_result score_D)
  from state_score_zero_without_scene_change[of cross_solver same_box_iou scenario_D_gts
      scenario_D_dets ?calls 2] e v
  show ?thesis by simp
qed

end
